theory Spec2Isabelle
  imports Main "HOL-Library.Word" "HOL-Library.AList"
begin

section \<open>Strings, regular expressions and paths of the host platform\<close>

text \<open>
  The analyzer is TypeScript running on Node. A JavaScript string is a sequence of
  UTF-16 code units and \<open>length\<close>, \<open>substring\<close> and the regular expressions
  all count code units, so a string is a list of 16-bit words here. \<open>js\<close> embeds an
  ASCII literal.
\<close>

type_synonym jschar = "16 word"
type_synonym jsstring = "jschar list"

definition js :: "string \<Rightarrow> jsstring" where
  "js s = map (\<lambda>c. of_nat (of_char c)) s"

definition isUpperAZ :: "jschar \<Rightarrow> bool" where
  "isUpperAZ c = (0x41 \<le> c \<and> c \<le> 0x5A)"

definition isLowerAZ :: "jschar \<Rightarrow> bool" where
  "isLowerAZ c = (0x61 \<le> c \<and> c \<le> 0x7A)"

definition isDigit09 :: "jschar \<Rightarrow> bool" where
  "isDigit09 c = (0x30 \<le> c \<and> c \<le> 0x39)"

definition isLetter :: "jschar \<Rightarrow> bool" where
  "isLetter c = (isUpperAZ c \<or> isLowerAZ c)"

definition isAlnum :: "jschar \<Rightarrow> bool" where
  "isAlnum c = (isLowerAZ c \<or> isUpperAZ c \<or> isDigit09 c)"

text \<open>The class \<open>\w\<close> behind the assertion \<open>\b\<close>.\<close>

definition isWordChar :: "jschar \<Rightarrow> bool" where
  "isWordChar c = (isAlnum c \<or> c = 0x5F)"

text \<open>The class \<open>\s\<close> of ECMAScript: white space and line terminators.\<close>

definition isSpace :: "jschar \<Rightarrow> bool" where
  "isSpace c = (c \<in> {0x09, 0x0A, 0x0B, 0x0C, 0x0D, 0x20, 0xA0, 0x1680, 0x2028, 0x2029,
                     0x202F, 0x205F, 0x3000, 0xFEFF} \<or> (0x2000 \<le> c \<and> c \<le> 0x200A))"

text \<open>The class of \<open>.\<close>: every code unit but the four line terminators.\<close>

definition isDot :: "jschar \<Rightarrow> bool" where
  "isDot c = (c \<notin> {0x0A, 0x0D, 0x2028, 0x2029})"

definition isQuote :: "jschar \<Rightarrow> bool" where
  "isQuote c = (c = 0x27 \<or> c = 0x22)"

definition asciiUpper :: "jschar \<Rightarrow> jschar" where
  "asciiUpper c = (if isLowerAZ c then c - 0x20 else c)"

text \<open>
  Under the flag \<open>i\<close> (without \<open>u\<close>) two code units match when their canonical
  forms agree; a code unit from 128 on never canonicalises into ASCII, so against an
  ASCII pattern character the comparison is ASCII case folding.
\<close>

definition sameCaseless :: "jschar \<Rightarrow> jschar \<Rightarrow> bool" where
  "sameCaseless c d = (asciiUpper c = asciiUpper d)"

subsection \<open>A backtracking matcher\<close>

text \<open>
  The regular expressions of the source use literals, character classes, greedy
  repetition of a class, alternation, \<open>^\<close>, \<open>$\<close>, \<open>\b\<close> and a negative
  lookahead. A matcher state is the
  code unit before the position (\<open>None\<close> at the start of the input) and the rest of
  the input. \<open>rx_run\<close> lists the states a pattern can end in, in the order in which
  a backtracking matcher tries them, so the head of the list is the match
  \<open>RegExp.prototype.exec\<close> reports.
\<close>

datatype rx =
    Chr "jschar \<Rightarrow> bool"
  | Many "jschar \<Rightarrow> bool"
  | Seq rx rx
  | Alt rx rx
  | Eps
  | Bol
  | Eol
  | Wb
  | NotAhead rx

type_synonym rxstate = "jschar option \<times> jsstring"

fun many :: "(jschar \<Rightarrow> bool) \<Rightarrow> jschar option \<Rightarrow> jsstring \<Rightarrow> rxstate list" where
  "many p pv [] = [(pv, [])]"
| "many p pv (c # cs) = (if p c then many p (Some c) cs else []) @ [(pv, c # cs)]"

definition wordBefore :: "jschar option \<Rightarrow> bool" where
  "wordBefore pv = (case pv of None \<Rightarrow> False | Some c \<Rightarrow> isWordChar c)"

definition wordAfter :: "jsstring \<Rightarrow> bool" where
  "wordAfter s = (case s of [] \<Rightarrow> False | c # _ \<Rightarrow> isWordChar c)"

fun rx_run :: "rx \<Rightarrow> rxstate \<Rightarrow> rxstate list" where
  "rx_run (Chr p) (pv, s) = (case s of [] \<Rightarrow> [] | c # cs \<Rightarrow> if p c then [(Some c, cs)] else [])"
| "rx_run (Many p) (pv, s) = many p pv s"
| "rx_run (Seq a b) st = concat (map (rx_run b) (rx_run a st))"
| "rx_run (Alt a b) st = rx_run a st @ rx_run b st"
| "rx_run Eps st = [st]"
| "rx_run Bol (pv, s) = (if pv = None then [(pv, s)] else [])"
| "rx_run Eol (pv, s) = (if s = [] then [(pv, s)] else [])"
| "rx_run Wb (pv, s) = (if wordBefore pv \<noteq> wordAfter s then [(pv, s)] else [])"
| "rx_run (NotAhead a) st = (if rx_run a st = [] then [st] else [])"

text \<open>\<open>RegExp.prototype.test\<close> of a pattern without the flag \<open>g\<close>: a match at any start.\<close>

fun rx_test_from :: "rx \<Rightarrow> jschar option \<Rightarrow> jsstring \<Rightarrow> bool" where
  "rx_test_from r pv [] = (rx_run r (pv, []) \<noteq> [])"
| "rx_test_from r pv (c # cs) = (rx_run r (pv, c # cs) \<noteq> [] \<or> rx_test_from r (Some c) cs)"

definition rx_test :: "rx \<Rightarrow> jsstring \<Rightarrow> bool" where
  "rx_test r s = rx_test_from r None s"

definition seqs :: "rx list \<Rightarrow> rx" where
  "seqs rs = foldr Seq rs Eps"

definition alts :: "rx list \<Rightarrow> rx" where
  "alts rs = (case rs of [] \<Rightarrow> Chr (\<lambda>_. False) | r # rest \<Rightarrow> foldl Alt r rest)"

definition lit :: "jsstring \<Rightarrow> rx" where
  "lit s = seqs (map (\<lambda>c. Chr (\<lambda>d. d = c)) s)"

definition liti :: "jsstring \<Rightarrow> rx" where
  "liti s = seqs (map (\<lambda>c. Chr (sameCaseless c)) s)"

definition plus :: "(jschar \<Rightarrow> bool) \<Rightarrow> rx" where
  "plus p = Seq (Chr p) (Many p)"

definition opt :: "rx \<Rightarrow> rx" where
  "opt r = Alt r Eps"

text \<open>
  A pattern with one capture group, written as the part before the group, the group
  and the part after it. \<open>rx_exec\<close> is \<open>exec\<close> of a global pattern from a
  position: the first start with a match, the group's text and the state after the match
  (the pattern's \<open>lastIndex\<close>).
\<close>

definition rx_capture :: "rx \<Rightarrow> rx \<Rightarrow> rx \<Rightarrow> rxstate \<Rightarrow> (jsstring \<times> rxstate) list" where
  "rx_capture pre grp post st =
     concat (map (\<lambda>st1.
       concat (map (\<lambda>st2.
         map (\<lambda>st3. (take (length (snd st1) - length (snd st2)) (snd st1), st3))
             (rx_run post st2))
         (rx_run grp st1)))
       (rx_run pre st))"

fun rx_exec :: "rx \<Rightarrow> rx \<Rightarrow> rx \<Rightarrow> jschar option \<Rightarrow> jsstring \<Rightarrow> (jsstring \<times> rxstate) option" where
  "rx_exec pre grp post pv [] =
     (case rx_capture pre grp post (pv, []) of [] \<Rightarrow> None | m # _ \<Rightarrow> Some m)"
| "rx_exec pre grp post pv (c # cs) =
     (case rx_capture pre grp post (pv, c # cs) of
        [] \<Rightarrow> rx_exec pre grp post (Some c) cs
      | m # _ \<Rightarrow> Some m)"

lemma many_shorter: "(pv', s') \<in> set (many p pv s) \<Longrightarrow> length s' \<le> length s"
  by (induction s arbitrary: pv) (force split: if_splits intro: le_SucI)+

lemma rx_run_shorter: "(pv', s') \<in> set (rx_run r (pv, s)) \<Longrightarrow> length s' \<le> length s"
proof (induction r arbitrary: pv s pv' s')
  case (Chr p)
  then show ?case by (auto split: list.splits if_splits)
next
  case (Many p)
  then show ?case by (auto dest: many_shorter)
next
  case (Seq a b)
  from Seq.prems obtain pm sm where mid: "(pm, sm) \<in> set (rx_run a (pv, s))"
    and fin: "(pv', s') \<in> set (rx_run b (pm, sm))" by auto
  from Seq.IH(1)[OF mid] Seq.IH(2)[OF fin] show ?case by simp
next
  case (Alt a b)
  then show ?case by auto
qed (auto split: if_splits)

lemma rx_exec_found:
  "rx_exec pre grp post pv s = Some m \<Longrightarrow> \<exists>pv0 s0. m \<in> set (rx_capture pre grp post (pv0, s0))
     \<and> length s0 \<le> length s"
proof (induction s arbitrary: pv)
  case Nil
  then have "m \<in> set (rx_capture pre grp post (pv, []))"
    by (auto split: list.splits)
  then show ?case by auto
next
  case (Cons c cs)
  show ?case
  proof (cases "rx_capture pre grp post (pv, c # cs)")
    case Nil
    with Cons.prems have "rx_exec pre grp post (Some c) cs = Some m" by simp
    from Cons.IH[OF this] obtain pv0 s0 where
      "m \<in> set (rx_capture pre grp post (pv0, s0))" and "length s0 \<le> length cs" by blast
    then have "m \<in> set (rx_capture pre grp post (pv0, s0)) \<and> length s0 \<le> length (c # cs)"
      by simp
    then show ?thesis by blast
  next
    case (Cons m' ms)
    with Cons.prems have "m \<in> set (rx_capture pre grp post (pv, c # cs))" by simp
    then show ?thesis by blast
  qed
qed

lemma rx_exec_group_shorter:
  assumes "rx_exec pre (Seq (Chr first) (Many rest)) post pv s = Some (match1, (pv', s'))"
  shows "length s' < length s"
proof -
  from rx_exec_found[OF assms] obtain pv0 s0 where
    m: "(match1, (pv', s')) \<in> set (rx_capture pre (Seq (Chr first) (Many rest)) post (pv0, s0))"
    and le: "length s0 \<le> length s" by blast
  from m obtain p1 s1 p2 s2 where a: "(p1, s1) \<in> set (rx_run pre (pv0, s0))"
    and b: "(p2, s2) \<in> set (rx_run (Seq (Chr first) (Many rest)) (p1, s1))"
    and c: "(pv', s') \<in> set (rx_run post (p2, s2))"
    by (auto simp: rx_capture_def)
  from b have "length s2 < length s1"
    by (auto split: list.splits if_splits dest: many_shorter)
  with rx_run_shorter[OF a] rx_run_shorter[OF c] le show ?thesis by simp
qed

text \<open>
  The loop \<open>while ((match = pattern.exec(content)) !== null)\<close> over a global pattern
  whose group is one code unit of a class and then a greedy repetition of a class, which
  is the shape of the group in the patterns looped over this way: \<open>match[1]\<close> of the
  successive matches.
\<close>

function execAll ::
  "rx \<times> (jschar \<Rightarrow> bool) \<times> (jschar \<Rightarrow> bool) \<times> rx \<Rightarrow> jschar option \<Rightarrow> jsstring
     \<Rightarrow> jsstring list" where
  "execAll (pre, first, rest, post) pv s =
     (case rx_exec pre (Seq (Chr first) (Many rest)) post pv s of
        None \<Rightarrow> []
      | Some (match1, (pv', s')) \<Rightarrow> match1 # execAll (pre, first, rest, post) pv' s')"
  by pat_completeness auto
termination
  by (relation "measure (\<lambda>(pattern, pv, s). length s)") (auto dest: rx_exec_group_shorter)

text \<open>
  \<open>s.replace(pattern, '')\<close> for a pattern without the flag \<open>g\<close>: the first match is
  cut out. \<open>trim\<close> strips the code units of the class \<open>\s\<close>, and \<open>s.split(sep)\<close> is
  for a separator of one code unit.
\<close>

fun rx_delete_first :: "rx \<Rightarrow> jschar option \<Rightarrow> jsstring \<Rightarrow> jsstring" where
  "rx_delete_first r pv [] = []"
| "rx_delete_first r pv (c # cs) =
     (case rx_run r (pv, c # cs) of
        [] \<Rightarrow> c # rx_delete_first r (Some c) cs
      | (pv', s') # _ \<Rightarrow> s')"

definition trim :: "jsstring \<Rightarrow> jsstring" where
  "trim s = rev (dropWhile isSpace (rev (dropWhile isSpace s)))"

fun splitOn :: "jschar \<Rightarrow> jsstring \<Rightarrow> jsstring list" where
  "splitOn sep [] = [[]]"
| "splitOn sep (c # cs) =
     (if c = sep then [] # splitOn sep cs
      else (case splitOn sep cs of [] \<Rightarrow> [[c]] | seg # segs \<Rightarrow> (c # seg) # segs))"

subsection \<open>Paths\<close>

text \<open>
  Node's \<open>path\<close> module on a POSIX host. \<open>cwd\<close> is the working directory of the
  process, an absolute path, which \<open>path.resolve\<close> falls back to.
\<close>

definition slash :: jschar where
  "slash = 0x2F"

fun splitSlash :: "jsstring \<Rightarrow> jsstring list" where
  "splitSlash [] = [[]]"
| "splitSlash (c # cs) =
     (if c = slash then [] # splitSlash cs
      else (case splitSlash cs of [] \<Rightarrow> [[c]] | seg # segs \<Rightarrow> (c # seg) # segs))"

fun joinSlash :: "jsstring list \<Rightarrow> jsstring" where
  "joinSlash [] = []"
| "joinSlash [seg] = seg"
| "joinSlash (seg # segs) = seg @ slash # joinSlash segs"

text \<open>
  \<open>normalizeString\<close> of an absolute path: empty and \<open>.\<close> segments are skipped,
  \<open>..\<close> drops the segment before it and is itself dropped at the root. The
  segments kept so far are held in reverse.
\<close>

fun normalizeSegs :: "jsstring list \<Rightarrow> jsstring list \<Rightarrow> jsstring list" where
  "normalizeSegs acc [] = rev acc"
| "normalizeSegs acc (seg # segs) =
     (if seg = [] \<or> seg = js ''.'' then normalizeSegs acc segs
      else if seg = js ''..'' then normalizeSegs (tl acc) segs
      else normalizeSegs (seg # acc) segs)"

definition isAbsolute :: "jsstring \<Rightarrow> bool" where
  "isAbsolute p = (case p of [] \<Rightarrow> False | c # _ \<Rightarrow> c = slash)"

definition path_resolve :: "jsstring \<Rightarrow> jsstring \<Rightarrow> jsstring \<Rightarrow> jsstring" where
  "path_resolve cwd a b =
     (let joined = (if isAbsolute b then b
                    else if isAbsolute a then a @ slash # b
                    else cwd @ slash # a @ slash # b)
      in slash # joinSlash (normalizeSegs [] (splitSlash joined)))"

definition stripTrailingSlashes :: "jsstring \<Rightarrow> jsstring" where
  "stripTrailingSlashes p = rev (dropWhile (\<lambda>c. c = slash) (rev p))"

text \<open>
  \<open>path.dirname\<close>: the path up to the slash that precedes its last segment; a path
  with no such slash has the directory \<open>/\<close> or \<open>.\<close>.
\<close>

definition path_dirname :: "jsstring \<Rightarrow> jsstring" where
  "path_dirname p =
     (if p = [] then js ''.''
      else let body = stripTrailingSlashes (tl p);
               keep = rev (dropWhile (\<lambda>c. c \<noteq> slash) (rev body))
           in if keep = [] then (if hd p = slash then js ''/'' else js ''.'')
              else if hd p = slash \<and> length keep = 1 then js ''//''
              else hd p # butlast keep)"

definition path_basename :: "jsstring \<Rightarrow> jsstring" where
  "path_basename p = rev (takeWhile (\<lambda>c. c \<noteq> slash) (rev (stripTrailingSlashes p)))"

fun dropCommon :: "jsstring list \<Rightarrow> jsstring list \<Rightarrow> jsstring list \<times> jsstring list" where
  "dropCommon (x # xs) (y # ys) = (if x = y then dropCommon xs ys else (x # xs, y # ys))"
| "dropCommon xs ys = (xs, ys)"

definition path_relative :: "jsstring \<Rightarrow> jsstring \<Rightarrow> jsstring \<Rightarrow> jsstring" where
  "path_relative cwd a b =
     (let fromSegs = normalizeSegs [] (splitSlash (path_resolve cwd [] a));
          toSegs = normalizeSegs [] (splitSlash (path_resolve cwd [] b));
          (up, down) = dropCommon fromSegs toSegs
      in joinSlash (map (\<lambda>_. js ''..'') up @ down))"

section \<open>The Source Index and the syntax trees\<close>

text \<open>
  \<open>FileInfo\<close> is one scanned file. The Source Index \<open>allFiles\<close> is the list the
  file scanner returns; every lookup in the source is \<open>allFiles.find\<close> by path, so the
  first file with a path answers for it.
\<close>

record FileInfo =
  path :: jsstring
  content :: jsstring
  size_bytes :: nat
  type_ext :: jsstring
  lastModified :: nat

text \<open>
  Parsing is Babel's. The analyzer only ever walks a tree with \<open>traverse\<close> and
  visitors that read fields of the node they are called on, so a tree is held as the
  nodes of the visited types in the order \<open>traverse\<close> enters them, each with the
  fields the visitors read. \<open>export function F() {}\<close> is an
  \<open>ExportNamedDeclaration\<close> without specifiers and without source followed by the
  \<open>FunctionDeclaration\<close> inside it. The parser is a parameter \<open>parse\<close> of the
  operations; \<open>None\<close> is a syntax error, which the source catches.
\<close>

datatype moduleExportName = Identifier jsstring | StringLiteral jsstring

datatype exportKind = KindType | KindValue

datatype specifier =
    ExportSpecifier moduleExportName moduleExportName exportKind
  | ExportDefaultSpecifier jsstring
  | ExportNamespaceSpecifier moduleExportName

text \<open>
  The callee of a call expression: a member expression with the names of its object and
  property where these are identifiers, an identifier, or anything else.
\<close>

datatype callee =
    MemberExpression "jsstring option" "jsstring option"
  | IdentifierCallee jsstring
  | OtherCallee

datatype init =
    FunctionExpression
  | ArrowFunctionExpression
  | CallExpression callee
  | OtherInit

datatype defaultDeclaration =
    DeclIdentifier jsstring
  | DeclFunction "jsstring option"
  | DeclOther

datatype node =
    FunctionDeclaration "jsstring option"
  | VariableDeclarator "jsstring option" init
  | ClassDeclaration "jsstring option"
  | ExportNamedDeclaration exportKind "specifier list" "jsstring option"
  | ExportAllDeclaration jsstring
  | ExportDefaultDeclaration defaultDeclaration

type_synonym parser = "jsstring \<Rightarrow> node list option"

fun nameOf :: "moduleExportName \<Rightarrow> jsstring" where
  "nameOf (Identifier n) = n"
| "nameOf (StringLiteral v) = v"

subsection \<open>resolveFilePath\<close>

definition possibleExtensions :: "jsstring list" where
  "possibleExtensions = map js [''.ts'', ''.tsx'', ''.js'', ''.jsx'',
     ''/index.ts'', ''/index.tsx'', ''/index.js'', ''/index.jsx'']"

fun tryExtensions :: "jsstring \<Rightarrow> FileInfo list \<Rightarrow> jsstring list \<Rightarrow> jsstring option" where
  "tryExtensions absolutePath allFiles [] = None"
| "tryExtensions absolutePath allFiles (ext # exts) =
     (case List.find (\<lambda>file. path file = absolutePath @ ext) allFiles of
        Some foundFile \<Rightarrow> Some (path foundFile)
      | None \<Rightarrow> tryExtensions absolutePath allFiles exts)"

definition resolveFilePath :: "jsstring \<Rightarrow> jsstring \<Rightarrow> jsstring \<Rightarrow> FileInfo list \<Rightarrow> jsstring option" where
  "resolveFilePath cwd relativePath indexPath allFiles =
     (let cleanRelativePath =
            (if take 2 relativePath = js ''./'' then drop 2 relativePath else relativePath);
          absolutePath = path_resolve cwd (path_dirname indexPath) cleanRelativePath
      in tryExtensions absolutePath allFiles possibleExtensions)"

section \<open>Name filtering\<close>

definition isPascalCase :: "jsstring \<Rightarrow> bool" where
  "isPascalCase name = rx_test (seqs [Bol, Chr isUpperAZ, Many isAlnum, Eol]) name"

text \<open>
  \<open>isLikelyComponent\<close> builds four patterns from the name with \<open>new RegExp\<close>. Every
  caller has checked \<open>isPascalCase\<close> first, so the name holds letters and digits only
  and stands for itself in the pattern.
\<close>

definition isOnlyTypeExport :: "jsstring \<Rightarrow> jsstring \<Rightarrow> bool" where
  "isOnlyTypeExport name indexContent =
     (rx_test (seqs [liti (js ''export''), plus isSpace, liti (js ''type''), plus isSpace,
                     liti name, Many isSpace, lit (js ''='')]) indexContent
      \<or> rx_test (seqs [liti (js ''export''), plus isSpace, liti (js ''interface''),
                       plus isSpace, liti name]) indexContent)"

definition hasComponentExport :: "jsstring \<Rightarrow> jsstring \<Rightarrow> bool" where
  "hasComponentExport name indexContent =
     (rx_test (seqs [liti (js ''export''), Many isSpace, lit (js ''{''),
                     Many (\<lambda>c. c \<noteq> 0x7D), Wb, liti name, Wb, Many (\<lambda>c. c \<noteq> 0x7D),
                     lit (js ''}'')]) indexContent
      \<or> rx_test (seqs [liti (js ''export''), plus isSpace, liti (js ''default''),
                       plus isSpace, liti name]) indexContent)"

definition utilPatterns :: "rx list" where
  "utilPatterns =
    [seqs [Bol, alts (map (\<lambda>w. lit (js w)) [''create'', ''make'', ''build'', ''generate'',
             ''get'', ''set'', ''is'', ''has'', ''can'', ''should'', ''will'', ''use'']),
           Chr isUpperAZ],
     seqs [Bol, alts (map (\<lambda>w. lit (js w)) [''format'', ''parse'', ''validate'',
             ''transform'', ''convert'']), Chr isUpperAZ],
     seqs [Bol, plus isLetter, liti (js ''Util''), opt (Chr (sameCaseless 0x73)), Eol],
     seqs [Bol, plus isLetter, liti (js ''Helper''), Eol],
     seqs [Bol, plus isLetter, liti (js ''Manager''), Eol],
     seqs [Bol, plus isLetter, liti (js ''Service''), Eol],
     seqs [lit (js ''Config''), Eol],
     seqs [liti (js ''Constant''), opt (Chr (sameCaseless 0x73)), Eol],
     seqs [liti (js ''Type''), opt (Chr (sameCaseless 0x73)), Eol],
     seqs [liti (js ''Enum''), Eol]]"

definition utilProviders :: "rx list" where
  "utilProviders =
    [seqs [Bol, lit (js ''Api''), Many isDot, lit (js ''Provider''), Eol],
     seqs [Bol, lit (js ''Http''), Many isDot, lit (js ''Provider''), Eol],
     seqs [Bol, lit (js ''Data''), Many isDot, lit (js ''Provider''), Eol],
     seqs [Bol, lit (js ''Service''), Many isDot, lit (js ''Provider''), Eol]]"

definition isLikelyComponent :: "jsstring \<Rightarrow> jsstring \<Rightarrow> bool" where
  "isLikelyComponent name indexContent =
     (if isOnlyTypeExport name indexContent \<and> \<not> hasComponentExport name indexContent
      then False
      else if list_ex (\<lambda>pattern. rx_test pattern name) utilPatterns then False
      else if rx_test (seqs [lit (js ''Provider''), Eol]) name
              \<and> list_ex (\<lambda>pattern. rx_test pattern name) utilProviders then False
      else True)"

section \<open>The Export Graph Resolver\<close>

text \<open>
  \<open>Map<string, string>\<close> keeps its keys in insertion order and \<open>set\<close> on a key
  that is present overwrites the value in place: an association list under
  \<open>AList.update\<close>.
\<close>

type_synonym nameMap = "(jsstring \<times> jsstring) list"

text \<open>
  The recursion through \<open>export * from\<close> has no guard against a cycle of modules and
  runs on the call stack, so it is bounded by a fuel; \<open>Inl StackExhausted\<close> is a
  recursion deeper than the fuel. What the source does once the stack has overflowed, when
  the handlers of \<open>extractComponentsFromReExportWithPaths\<close> and
  \<open>extractComponentsFromReExport\<close> catch the error, is not modelled; nothing else is
  thrown under these handlers.
\<close>

datatype extractError = StackExhausted

text \<open>The loop over the specifiers of \<open>export { A, B } from './module'\<close>.\<close>

fun recordReExports :: "jsstring option \<Rightarrow> specifier list \<Rightarrow> nameMap \<Rightarrow> nameMap" where
  "recordReExports sourceFilePath [] m = m"
| "recordReExports sourceFilePath (ExportSpecifier exported local kind # specifiers) m =
     (if kind = KindType then recordReExports sourceFilePath specifiers m
      else (case sourceFilePath of
              Some p \<Rightarrow>
                if isPascalCase (nameOf exported)
                then recordReExports sourceFilePath specifiers (AList.update (nameOf exported) p m)
                else recordReExports sourceFilePath specifiers m
            | None \<Rightarrow> recordReExports sourceFilePath specifiers m))"
| "recordReExports sourceFilePath (_ # specifiers) m = recordReExports sourceFilePath specifiers m"

text \<open>The loop over the specifiers of \<open>export { A, B }\<close>.\<close>

fun recordLocalExports :: "jsstring \<Rightarrow> specifier list \<Rightarrow> nameMap \<Rightarrow> nameMap" where
  "recordLocalExports indexPath [] m = m"
| "recordLocalExports indexPath (ExportSpecifier exported local kind # specifiers) m =
     (if kind = KindType then recordLocalExports indexPath specifiers m
      else if isPascalCase (nameOf exported)
      then recordLocalExports indexPath specifiers (AList.update (nameOf exported) indexPath m)
      else recordLocalExports indexPath specifiers m)"
| "recordLocalExports indexPath (_ # specifiers) m = recordLocalExports indexPath specifiers m"

text \<open>
  \<open>extractComponentsFromReExportWithPaths\<close>, with the recursive call to
  \<open>extractComponentInfoFromIndex\<close> passed in as \<open>extract\<close>.
\<close>

definition extractComponentsFromReExportWithPaths ::
  "(jsstring \<Rightarrow> jsstring \<Rightarrow> extractError + nameMap) \<Rightarrow> jsstring \<Rightarrow> jsstring \<Rightarrow> jsstring
     \<Rightarrow> FileInfo list \<Rightarrow> extractError + nameMap" where
  "extractComponentsFromReExportWithPaths extract cwd relativePath indexPath allFiles =
     (case resolveFilePath cwd relativePath indexPath allFiles of
        None \<Rightarrow> Inr []
      | Some sourceFilePath \<Rightarrow>
          (case List.find (\<lambda>file. path file = sourceFilePath) allFiles of
             None \<Rightarrow> Inr []
           | Some targetFile \<Rightarrow> extract (content targetFile) (path targetFile)))"

text \<open>
  The visitors of the traversal. The state is the map and the list
  \<open>exportStarPromises\<close>; each promise is held as the result it settles to.
\<close>

fun indexVisitor ::
  "(jsstring \<Rightarrow> jsstring \<Rightarrow> extractError + nameMap) \<Rightarrow> jsstring \<Rightarrow> jsstring \<Rightarrow> FileInfo list
     \<Rightarrow> node \<Rightarrow> nameMap \<times> (extractError + nameMap) list
     \<Rightarrow> nameMap \<times> (extractError + nameMap) list" where
  "indexVisitor extract cwd indexPath allFiles (ExportNamedDeclaration kind specifiers source)
       (m, stars) =
     (if kind = KindType then (m, stars)
      else (case source of
              Some src \<Rightarrow>
                (recordReExports (resolveFilePath cwd src indexPath allFiles) specifiers m, stars)
            | None \<Rightarrow> (recordLocalExports indexPath specifiers m, stars)))"
| "indexVisitor extract cwd indexPath allFiles (ExportAllDeclaration relativePath) (m, stars) =
     (m, stars @ [extractComponentsFromReExportWithPaths extract cwd relativePath indexPath
                    allFiles])"
| "indexVisitor extract cwd indexPath allFiles (ExportDefaultDeclaration (DeclIdentifier name))
       (m, stars) =
     (if isPascalCase name then (AList.update name indexPath m, stars) else (m, stars))"
| "indexVisitor extract cwd indexPath allFiles
       (ExportDefaultDeclaration (DeclFunction (Some name))) (m, stars) =
     (if isPascalCase name then (AList.update name indexPath m, stars) else (m, stars))"
| "indexVisitor extract cwd indexPath allFiles _ (m, stars) = (m, stars)"

text \<open>\<open>Promise.all\<close>: the maps in order, or the first failure.\<close>

fun awaitAll :: "(extractError + nameMap) list \<Rightarrow> extractError + nameMap list" where
  "awaitAll [] = Inr []"
| "awaitAll (Inl e # rs) = Inl e"
| "awaitAll (Inr m # rs) = (case awaitAll rs of Inl e \<Rightarrow> Inl e | Inr ms \<Rightarrow> Inr (m # ms))"

definition mergeMap :: "nameMap \<Rightarrow> nameMap \<Rightarrow> nameMap" where
  "mergeMap reExportedMap m = fold (\<lambda>(componentName, filePath). AList.update componentName filePath)
     reExportedMap m"

definition filterComponents :: "jsstring \<Rightarrow> nameMap \<Rightarrow> nameMap" where
  "filterComponents fileContent m =
     filter (\<lambda>(componentName, filePath).
        isPascalCase componentName \<and> isLikelyComponent componentName fileContent) m"

subsection \<open>The fallback by regular expressions\<close>

text \<open>
  When Babel rejects a file, \<open>extractComponentInfoFromIndex\<close> catches the error and
  takes the names from \<open>extractComponentNamesFromIndexRegex\<close> and a file for each name
  from \<open>findComponentFile\<close>. The four patterns of \<open>exportPatterns\<close> and
  \<open>exportStarPattern\<close> are held as the part before the group, the two classes of
  the group and the part after it.
\<close>

definition exportPatterns :: "(rx \<times> (jschar \<Rightarrow> bool) \<times> (jschar \<Rightarrow> bool) \<times> rx) list" where
  "exportPatterns =
     [(seqs [lit (js ''export''), Many isSpace, lit (js ''{''), Many isSpace],
       (\<lambda>c. c \<noteq> 0x7D), (\<lambda>c. c \<noteq> 0x7D),
       seqs [Many isSpace, lit (js ''}''), Many isSpace, lit (js ''from'')]),
      (seqs [lit (js ''export''), Many isSpace, lit (js ''{''), Many isSpace],
       (\<lambda>c. c \<noteq> 0x7D), (\<lambda>c. c \<noteq> 0x7D),
       seqs [Many isSpace, lit (js ''}''), NotAhead (seqs [Many isSpace, lit (js ''from'')])]),
      (seqs [lit (js ''export''), plus isSpace],
       isUpperAZ, isAlnum,
       seqs [plus isSpace, lit (js ''from'')]),
      (seqs [lit (js ''export''), Many isSpace, lit (js ''{''), Many isSpace, lit (js ''default''),
             plus isSpace, lit (js ''as''), plus isSpace],
       isUpperAZ, isAlnum,
       seqs [Many isSpace, lit (js ''}'')])]"

definition exportStarPattern :: "rx \<times> (jschar \<Rightarrow> bool) \<times> (jschar \<Rightarrow> bool) \<times> rx" where
  "exportStarPattern =
     (seqs [lit (js ''export''), plus isSpace, lit (js ''*''), plus isSpace, lit (js ''from''),
            plus isSpace, Chr isQuote],
      (\<lambda>c. \<not> isQuote c), (\<lambda>c. \<not> isQuote c),
      Chr isQuote)"

text \<open>
  What the body of the loop pushes for one match: the items of \<open>match[1]\<close> when it
  holds a comma, each cut down to the name after \<open>default as\<close> or to what stands before
  \<open>as\<close>, and \<open>match[1]\<close> trimmed otherwise.
\<close>

definition exportItem :: "jsstring \<Rightarrow> jsstring" where
  "exportItem item =
     (case rx_exec (seqs [lit (js ''default''), plus isSpace, lit (js ''as''), plus isSpace])
                   (Seq (Chr isUpperAZ) (Many isAlnum)) Eps None item of
        Some (asMatch1, _) \<Rightarrow> asMatch1
      | None \<Rightarrow>
          rx_delete_first (seqs [plus isSpace, lit (js ''as''), plus isSpace, Many isDot]) None
            (trim item))"

definition matchedNames :: "jsstring \<Rightarrow> jsstring list" where
  "matchedNames match1 =
     (if match1 = [] then []
      else if 0x2C \<in> set match1 then map exportItem (splitOn 0x2C match1)
      else [trim match1])"

text \<open>
  \<open>extractComponentsFromReExport\<close>, with the recursive call to
  \<open>extractComponentInfoFromIndex\<close> passed in as \<open>extract\<close>: the keys of the map of
  the module the path resolves to.
\<close>

fun firstWithExtension :: "jsstring \<Rightarrow> FileInfo list \<Rightarrow> jsstring list \<Rightarrow> FileInfo option" where
  "firstWithExtension absolutePath allFiles [] = None"
| "firstWithExtension absolutePath allFiles (ext # exts) =
     (case List.find (\<lambda>file. path file = absolutePath @ ext) allFiles of
        Some foundFile \<Rightarrow> Some foundFile
      | None \<Rightarrow> firstWithExtension absolutePath allFiles exts)"

definition extractComponentsFromReExport ::
  "(jsstring \<Rightarrow> jsstring \<Rightarrow> extractError + nameMap) \<Rightarrow> jsstring \<Rightarrow> jsstring \<Rightarrow> jsstring
     \<Rightarrow> FileInfo list \<Rightarrow> extractError + jsstring list" where
  "extractComponentsFromReExport extract cwd relativePath indexPath allFiles =
     (let cleanRelativePath =
            (if take 2 relativePath = js ''./'' then drop 2 relativePath else relativePath);
          absolutePath = path_resolve cwd (path_dirname indexPath) cleanRelativePath
      in case firstWithExtension absolutePath allFiles possibleExtensions of
           None \<Rightarrow> Inr []
         | Some targetFile \<Rightarrow>
             (case extract (content targetFile) (path targetFile) of
                Inl e \<Rightarrow> Inl e
              | Inr componentInfoMap \<Rightarrow> Inr (map fst componentInfoMap)))"

text \<open>The loop over the matches of \<open>exportStarPattern\<close>: the names it pushes.\<close>

fun reExportedNames ::
  "(jsstring \<Rightarrow> jsstring \<Rightarrow> extractError + nameMap) \<Rightarrow> jsstring \<Rightarrow> jsstring \<Rightarrow> FileInfo list
     \<Rightarrow> jsstring list \<Rightarrow> extractError + jsstring list" where
  "reExportedNames extract cwd indexPath allFiles [] = Inr []"
| "reExportedNames extract cwd indexPath allFiles (relativePath # starMatches) =
     (case extractComponentsFromReExport extract cwd relativePath indexPath allFiles of
        Inl e \<Rightarrow> Inl e
      | Inr reExportedComponents \<Rightarrow>
          (case reExportedNames extract cwd indexPath allFiles starMatches of
             Inl e \<Rightarrow> Inl e
           | Inr names \<Rightarrow> Inr (reExportedComponents @ names)))"

text \<open>\<open>arr.indexOf(name)\<close> for a name of the array, and the filter that keeps the first
  occurrence of every name.\<close>

definition indexOf :: "'a list \<Rightarrow> 'a \<Rightarrow> nat" where
  "indexOf arr name = length (takeWhile (\<lambda>x. x \<noteq> name) arr)"

definition firstOccurrences :: "'a list \<Rightarrow> 'a list" where
  "firstOccurrences arr =
     map snd (filter (\<lambda>(index, name). indexOf arr name = index) (enumerate 0 arr))"

definition extractComponentNamesFromIndexRegex ::
  "(jsstring \<Rightarrow> jsstring \<Rightarrow> extractError + nameMap) \<Rightarrow> jsstring \<Rightarrow> jsstring \<Rightarrow> jsstring
     \<Rightarrow> FileInfo list \<Rightarrow> extractError + jsstring list" where
  "extractComponentNamesFromIndexRegex extract cwd fileContent indexPath allFiles =
     (let componentNames =
            concat (map (\<lambda>pattern. concat (map matchedNames (execAll pattern None fileContent)))
                        exportPatterns)
      in case reExportedNames extract cwd indexPath allFiles
                (execAll exportStarPattern None fileContent) of
           Inl e \<Rightarrow> Inl e
         | Inr reExportedComponents \<Rightarrow>
             Inr (firstOccurrences
                    (filter (\<lambda>name. isLikelyComponent name fileContent)
                       (filter isPascalCase (componentNames @ reExportedComponents)))))"

text \<open>
  \<open>findComponentFile\<close> builds its patterns from the name with \<open>new RegExp\<close>. Its only
  caller passes names that \<open>isPascalCase\<close> accepts, so the name holds ASCII letters
  and digits only: it stands for itself in a pattern, and \<open>toLowerCase\<close> is the ASCII
  one.
\<close>

definition toLowerCase :: "jsstring \<Rightarrow> jsstring" where
  "toLowerCase s = map (\<lambda>c. if isUpperAZ c then c + 0x20 else c) s"

text \<open>\<open>componentName.replace(/([A-Z])/g, '-$1').toLowerCase().substring(1)\<close>.\<close>

definition kebabCase :: "jsstring \<Rightarrow> jsstring" where
  "kebabCase componentName =
     drop 1 (toLowerCase (concat (map (\<lambda>c. if isUpperAZ c then [0x2D, c] else [c]) componentName)))"

definition scriptExtension :: rx where
  "scriptExtension =
     seqs [lit (js ''.''),
           Alt (Seq (lit (js ''ts'')) (opt (lit (js ''x'')))) (Seq (lit (js ''js'')) (opt (lit (js ''x'')))),
           Eol]"

definition possiblePatterns :: "jsstring \<Rightarrow> rx list" where
  "possiblePatterns componentName =
     [seqs [lit (js ''/''), lit componentName, scriptExtension],
      seqs [lit (js ''/''), lit (toLowerCase componentName), scriptExtension],
      seqs [lit (js ''/''), lit (kebabCase componentName), scriptExtension],
      seqs [lit (js ''/''), lit componentName, lit (js ''/index''), scriptExtension]]"

definition contentPatterns :: "jsstring \<Rightarrow> rx list" where
  "contentPatterns componentName =
     [seqs [lit (js ''function''), plus isSpace, lit componentName, Many isSpace,
            Chr (\<lambda>c. c = 0x28 \<or> c = 0x7B)],
      seqs [lit (js ''const''), plus isSpace, lit componentName, Many isSpace, lit (js ''='')],
      seqs [lit (js ''class''), plus isSpace, lit componentName, Many isSpace,
            Chr (\<lambda>c. c = 0x7B \<or> c = 0x28)],
      seqs [lit (js ''export''), plus isSpace, lit (js ''default''), plus isSpace,
            lit componentName],
      seqs [lit (js ''export''), Many isSpace, lit (js ''{''), Many (\<lambda>c. c \<noteq> 0x7D), Wb,
            lit componentName, Wb, Many (\<lambda>c. c \<noteq> 0x7D), lit (js ''}'')]]"

fun findByPath :: "rx list \<Rightarrow> FileInfo list \<Rightarrow> FileInfo option" where
  "findByPath [] allFiles = None"
| "findByPath (pattern # patterns) allFiles =
     (case List.find (\<lambda>file. rx_test pattern (path file)) allFiles of
        Some matchedFile \<Rightarrow> Some matchedFile
      | None \<Rightarrow> findByPath patterns allFiles)"

definition findComponentFile :: "jsstring \<Rightarrow> FileInfo list \<Rightarrow> FileInfo option" where
  "findComponentFile componentName allFiles =
     (case findByPath (possiblePatterns componentName) allFiles of
        Some matchedFile \<Rightarrow> Some matchedFile
      | None \<Rightarrow>
          List.find (\<lambda>file. list_ex (\<lambda>pattern. rx_test pattern (content file))
                                 (contentPatterns componentName)) allFiles)"

text \<open>The loop of the handler that fills \<open>fallbackMap\<close>.\<close>

definition fallbackMap :: "jsstring list \<Rightarrow> FileInfo list \<Rightarrow> nameMap" where
  "fallbackMap componentNames allFiles =
     fold (\<lambda>componentName m.
             case findComponentFile componentName allFiles of
               Some componentFile \<Rightarrow> AList.update componentName (path componentFile) m
             | None \<Rightarrow> m)
          componentNames []"

subsection \<open>extractComponentInfoFromIndex\<close>

primrec extractComponentInfoFromIndex ::
  "nat \<Rightarrow> parser \<Rightarrow> jsstring \<Rightarrow> FileInfo list \<Rightarrow> jsstring \<Rightarrow> jsstring \<Rightarrow> extractError + nameMap" where
  "extractComponentInfoFromIndex 0 parse cwd allFiles fileContent indexPath = Inl StackExhausted"
| "extractComponentInfoFromIndex (Suc fuel) parse cwd allFiles fileContent indexPath =
     (case parse fileContent of
        None \<Rightarrow>
          (case extractComponentNamesFromIndexRegex
                  (extractComponentInfoFromIndex fuel parse cwd allFiles) cwd fileContent indexPath
                  allFiles of
             Inl e \<Rightarrow> Inl e
           | Inr componentNames \<Rightarrow> Inr (fallbackMap componentNames allFiles))
      | Some ast \<Rightarrow>
          (case fold (indexVisitor (extractComponentInfoFromIndex fuel parse cwd allFiles)
                        cwd indexPath allFiles) ast ([], []) of
             (componentToFileMap, exportStarPromises) \<Rightarrow>
               (case awaitAll exportStarPromises of
                  Inl e \<Rightarrow> Inl e
                | Inr reExportedResults \<Rightarrow>
                    Inr (filterComponents fileContent
                           (fold mergeMap reExportedResults componentToFileMap)))))"

section \<open>The Implementation Tracer\<close>

text \<open>
  \<open>visited\<close> and \<open>dependencies\<close> of \<open>traceComponentImplementation\<close> are a
  \<open>Set\<close> each: lists without repetition in insertion order. The files of the
  second set are compared as values here, where JavaScript compares the objects of
  \<open>allFiles\<close>.
\<close>

definition setAdd :: "'a \<Rightarrow> 'a list \<Rightarrow> 'a list" where
  "setAdd x xs = (if x \<in> set xs then xs else xs @ [x])"

record traceState =
  visited :: "jsstring list"
  dependencySet :: "FileInfo list"

text \<open>The variables the visitors of one file assign.\<close>

record scanState =
  foundImplementation :: bool
  nextTraceTarget :: "(jsstring \<times> jsstring) option"
  defaultAsTarget :: "FileInfo option"
  scanDependencies :: "FileInfo list"

fun looksLikeComponentCall :: "init \<Rightarrow> bool" where
  "looksLikeComponentCall (CallExpression (MemberExpression (Some objectName) (Some propertyName))) =
     (if objectName = js ''React'' \<and> propertyName \<in> set (map js [''forwardRef'', ''memo'', ''lazy''])
      then True
      else if objectName = js ''styled'' then True
      else False)"
| "looksLikeComponentCall (CallExpression (MemberExpression _ _)) = False"
| "looksLikeComponentCall (CallExpression (IdentifierCallee calleeName)) =
     (calleeName \<in> set (map js [''forwardRef'', ''memo'', ''lazy'']))"
| "looksLikeComponentCall _ = False"

fun isComponentInit :: "init \<Rightarrow> bool" where
  "isComponentInit FunctionExpression = True"
| "isComponentInit ArrowFunctionExpression = True"
| "isComponentInit i = looksLikeComponentCall i"

text \<open>The loop over the specifiers of a re-export in the tracer.\<close>

fun traceSpecifiers ::
  "jsstring \<Rightarrow> FileInfo list \<Rightarrow> jsstring \<Rightarrow> jsstring \<Rightarrow> jsstring \<Rightarrow> specifier list
     \<Rightarrow> scanState \<Rightarrow> scanState" where
  "traceSpecifiers cwd allFiles currentComponentName currentFilePath src [] sc = sc"
| "traceSpecifiers cwd allFiles currentComponentName currentFilePath src
       (ExportSpecifier exported local kind # specifiers) sc =
     (let exportedName = nameOf exported;
          localName = (case local of Identifier n \<Rightarrow> n | StringLiteral _ \<Rightarrow> exportedName)
      in traceSpecifiers cwd allFiles currentComponentName currentFilePath src specifiers
          (if exportedName = currentComponentName
           then (case resolveFilePath cwd src currentFilePath allFiles of
                   None \<Rightarrow> sc
                 | Some targetPath \<Rightarrow>
                     if localName = js ''default''
                     then (case List.find (\<lambda>f. path f = targetPath) allFiles of
                             None \<Rightarrow> sc
                           | Some targetFile \<Rightarrow>
                               sc\<lparr>scanDependencies := setAdd targetFile (scanDependencies sc),
                                  defaultAsTarget := Some targetFile,
                                  foundImplementation := True\<rparr>)
                     else sc\<lparr>nextTraceTarget := Some (localName, targetPath)\<rparr>)
           else sc))"
| "traceSpecifiers cwd allFiles currentComponentName currentFilePath src (_ # specifiers) sc =
     traceSpecifiers cwd allFiles currentComponentName currentFilePath src specifiers sc"

fun traceVisitor ::
  "jsstring \<Rightarrow> FileInfo list \<Rightarrow> jsstring \<Rightarrow> jsstring \<Rightarrow> node \<Rightarrow> scanState \<Rightarrow> scanState" where
  "traceVisitor cwd allFiles currentComponentName currentFilePath (FunctionDeclaration ident) sc =
     (if ident = Some currentComponentName then sc\<lparr>foundImplementation := True\<rparr> else sc)"
| "traceVisitor cwd allFiles currentComponentName currentFilePath (VariableDeclarator ident i) sc =
     (if ident = Some currentComponentName
      then (if isComponentInit i then sc\<lparr>foundImplementation := True\<rparr> else sc)
      else sc)"
| "traceVisitor cwd allFiles currentComponentName currentFilePath (ClassDeclaration ident) sc =
     (if ident = Some currentComponentName then sc\<lparr>foundImplementation := True\<rparr> else sc)"
| "traceVisitor cwd allFiles currentComponentName currentFilePath
       (ExportNamedDeclaration kind specifiers source) sc =
     (case source of
        None \<Rightarrow> sc
      | Some src \<Rightarrow>
          traceSpecifiers cwd allFiles currentComponentName currentFilePath src specifiers sc)"
| "traceVisitor cwd allFiles currentComponentName currentFilePath (ExportAllDeclaration src) sc =
     (case resolveFilePath cwd src currentFilePath allFiles of
        None \<Rightarrow> sc
      | Some targetPath \<Rightarrow> sc\<lparr>nextTraceTarget := Some (currentComponentName, targetPath)\<rparr>)"
| "traceVisitor cwd allFiles currentComponentName currentFilePath (ExportDefaultDeclaration d) sc =
     (case d of
        DeclIdentifier n \<Rightarrow>
          if n = currentComponentName then sc\<lparr>foundImplementation := True\<rparr> else sc
      | DeclFunction ident \<Rightarrow>
          if ident = Some currentComponentName then sc\<lparr>foundImplementation := True\<rparr> else sc
      | DeclOther \<Rightarrow> sc)"

definition scanFile ::
  "jsstring \<Rightarrow> FileInfo list \<Rightarrow> jsstring \<Rightarrow> jsstring \<Rightarrow> node list \<Rightarrow> FileInfo list \<Rightarrow> scanState" where
  "scanFile cwd allFiles currentComponentName currentFilePath ast deps =
     fold (traceVisitor cwd allFiles currentComponentName currentFilePath) ast
       \<lparr>foundImplementation = False, nextTraceTarget = None, defaultAsTarget = None,
        scanDependencies = deps\<rparr>"

text \<open>
  The recursive \<open>traceImplementation\<close>. Its result is the file found, or \<open>None\<close>
  for \<open>null\<close>, with the two sets as they stand afterwards. A file Babel rejects is
  returned as it is (the \<open>catch\<close> of the source).
\<close>

function traceImplementation ::
  "parser \<Rightarrow> jsstring \<Rightarrow> FileInfo list \<Rightarrow> jsstring \<Rightarrow> jsstring \<Rightarrow> nat \<Rightarrow> traceState
     \<Rightarrow> FileInfo option \<times> traceState" where
  "traceImplementation parse cwd allFiles currentComponentName currentFilePath depth st =
     (if depth > 10 then (None, st)
      else if currentFilePath \<in> set (visited st) then (None, st)
      else let st1 = st\<lparr>visited := setAdd currentFilePath (visited st)\<rparr> in
        (case List.find (\<lambda>f. path f = currentFilePath) allFiles of
           None \<Rightarrow> (None, st1)
         | Some currentFile \<Rightarrow>
             let st2 = st1\<lparr>dependencySet := setAdd currentFile (dependencySet st1)\<rparr> in
             (case parse (content currentFile) of
                None \<Rightarrow> (Some currentFile, st2)
              | Some ast \<Rightarrow>
                  let sc = scanFile cwd allFiles currentComponentName currentFilePath ast
                             (dependencySet st2);
                      st3 = st2\<lparr>dependencySet := scanDependencies sc\<rparr>
                  in if foundImplementation sc
                     then (case defaultAsTarget sc of
                             Some target \<Rightarrow> (Some target, st3)
                           | None \<Rightarrow> (Some currentFile, st3))
                     else (case nextTraceTarget sc of
                             Some (targetName, targetPath) \<Rightarrow>
                               traceImplementation parse cwd allFiles targetName targetPath
                                 (depth + 1) st3
                           | None \<Rightarrow> (Some currentFile, st3)))))"
  by pat_completeness auto
termination
  by (relation "measure (\<lambda>(parse, cwd, allFiles, n, p, depth, st). 11 - depth)") auto

text \<open>
  The result of \<open>traceComponentImplementation\<close>, and the shape \<open>scanComponents\<close>
  gives each component before the analysis.
\<close>

record component =
  comp_name :: jsstring
  comp_code :: jsstring
  comp_path :: jsstring
  comp_file :: FileInfo
  comp_dependencies :: "FileInfo list option"

definition traceComponentImplementation ::
  "parser \<Rightarrow> jsstring \<Rightarrow> jsstring \<Rightarrow> jsstring \<Rightarrow> FileInfo list \<Rightarrow> component option" where
  "traceComponentImplementation parse cwd componentName filePath allFiles =
     (case traceImplementation parse cwd allFiles componentName filePath 0
             \<lparr>visited = [], dependencySet = []\<rparr> of
        (Some implementationFile, st) \<Rightarrow>
          Some \<lparr>comp_name = componentName, comp_code = content implementationFile,
                comp_path = path implementationFile, comp_file = implementationFile,
                comp_dependencies = Some (dependencySet st)\<rparr>
      | (None, st) \<Rightarrow> None)"

text \<open>
  The loop of \<open>identifyComponentsFromIndex\<close> over the entries of the name map: a
  component whose trace is \<open>null\<close> is logged and left out.
\<close>

definition traceComponents ::
  "parser \<Rightarrow> jsstring \<Rightarrow> FileInfo list \<Rightarrow> nameMap \<Rightarrow> component list" where
  "traceComponents parse cwd allFiles componentInfoMap =
     List.map_filter (\<lambda>(componentName, filePath).
        traceComponentImplementation parse cwd componentName filePath allFiles) componentInfoMap"

section \<open>The Dependency Context Builder\<close>

subsection \<open>analyzeDependencies\<close>

text \<open>
  The pattern \<open>/import\s+.*from\s+['"]([^'"]+)['"]/g\<close>, split at its capture group.
\<close>

definition importPre :: rx where
  "importPre = seqs [lit (js ''import''), plus isSpace, Many isDot, lit (js ''from''),
                     plus isSpace, Chr isQuote]"

definition importGrp :: rx where
  "importGrp = plus (\<lambda>c. \<not> isQuote c)"

definition importPost :: rx where
  "importPost = Chr isQuote"

lemma rx_capture_import_shorter:
  assumes "(cap, (pv', s')) \<in> set (rx_capture importPre importGrp importPost (pv, s))"
  shows "length s' < length s"
proof -
  from assms obtain p1 s1 p2 s2 where a: "(p1, s1) \<in> set (rx_run importPre (pv, s))"
    and b: "(p2, s2) \<in> set (rx_run importGrp (p1, s1))"
    and c: "(pv', s') \<in> set (rx_run importPost (p2, s2))"
    by (auto simp: rx_capture_def)
  from c have "length s' < length s2"
    by (auto simp: importPost_def split: list.splits if_splits)
  with rx_run_shorter[OF a] rx_run_shorter[OF b] show ?thesis by simp
qed

lemma rx_exec_import_shorter:
  "rx_exec importPre importGrp importPost pv s = Some (cap, (pv', s')) \<Longrightarrow> length s' < length s"
proof (induction s arbitrary: pv)
  case Nil
  then obtain ms where "rx_capture importPre importGrp importPost (pv, []) = (cap, (pv', s')) # ms"
    by (auto split: list.splits)
  then have "(cap, (pv', s')) \<in> set (rx_capture importPre importGrp importPost (pv, []))"
    by simp
  from rx_capture_import_shorter[OF this] show ?case .
next
  case (Cons c cs)
  show ?case
  proof (cases "rx_capture importPre importGrp importPost (pv, c # cs)")
    case Nil
    with Cons.prems have "rx_exec importPre importGrp importPost (Some c) cs = Some (cap, (pv', s'))"
      by simp
    from Cons.IH[OF this] show ?thesis by simp
  next
    case (Cons m ms)
    with Cons.prems have "m = (cap, (pv', s'))" by simp
    with Cons have "(cap, (pv', s')) \<in> set (rx_capture importPre importGrp importPost (pv, c # cs))"
      by simp
    from rx_capture_import_shorter[OF this] show ?thesis .
  qed
qed

text \<open>
  The loop \<open>while ((match = importRegex.exec(content)) !== null)\<close>: the captured
  import paths, each search resuming where the match before it ended.
\<close>

function importMatches :: "jschar option \<Rightarrow> jsstring \<Rightarrow> jsstring list" where
  "importMatches pv s =
     (case rx_exec importPre importGrp importPost pv s of
        None \<Rightarrow> []
      | Some (importPath, (pv', s')) \<Rightarrow> importPath # importMatches pv' s')"
  by pat_completeness auto
termination
  by (relation "measure (\<lambda>(pv, s). length s)") (auto dest: rx_exec_import_shorter)

fun firstExisting :: "jsstring \<Rightarrow> FileInfo list \<Rightarrow> jsstring list \<Rightarrow> jsstring option" where
  "firstExisting resolvedPath allFiles [] = None"
| "firstExisting resolvedPath allFiles (ext # exts) =
     (if list_ex (\<lambda>f. path f = resolvedPath @ ext) allFiles then Some (resolvedPath @ ext)
      else firstExisting resolvedPath allFiles exts)"

text \<open>The body of the loop: what one import path adds to \<open>dependencies\<close>.\<close>

definition resolveImport :: "jsstring \<Rightarrow> FileInfo \<Rightarrow> FileInfo list \<Rightarrow> jsstring \<Rightarrow> jsstring option" where
  "resolveImport cwd file allFiles importPath =
     (if take 1 importPath \<noteq> js ''.'' then None
      else firstExisting (path_resolve cwd (path_dirname (path file)) importPath) allFiles
             (map js [''.ts'', ''.tsx'', ''.js'', ''.jsx'']))"

definition analyzeDependencies :: "jsstring \<Rightarrow> FileInfo \<Rightarrow> FileInfo list \<Rightarrow> jsstring list" where
  "analyzeDependencies cwd file allFiles =
     List.map_filter (resolveImport cwd file allFiles) (importMatches None (content file))"

subsection \<open>buildDependencyContext\<close>

fun decimal :: "nat \<Rightarrow> jsstring" where
  "decimal n = (if n < 10 then [0x30 + of_nat n]
                else decimal (n div 10) @ [0x30 + of_nat (n mod 10)])"

text \<open>
  The texts of the source outside ASCII, as code units: the truncation marker
  \<open>'\n// ... (...)'\<close>, the header line of a snippet and the entry that counts the
  snippets left out.
\<close>

definition truncationMarker :: jsstring where
  "truncationMarker = 0x0A # js ''// ... ('' @ [0x6587, 0x4EF6, 0x5185, 0x5BB9, 0x5DF2, 0x622A, 0x65AD]
     @ js '')''"

definition truncateCode :: "jsstring \<Rightarrow> jsstring" where
  "truncateCode code = (if length code > 3000 then take 3000 code @ truncationMarker else code)"

definition snippetHeader :: "jsstring \<Rightarrow> nat \<Rightarrow> jsstring" where
  "snippetHeader depPath depth =
     js ''// '' @ [0x4F9D, 0x8D56, 0x6587, 0x4EF6] @ js '': '' @ path_basename depPath
       @ js '' ('' @ [0x6DF1, 0x5EA6] @ js '': '' @ decimal depth @ js '')'' @ [0x0A]"

definition omittedMarker :: "nat \<Rightarrow> jsstring" where
  "omittedMarker n =
     js ''// ... '' @ [0x8FD8, 0x6709, 0x20] @ decimal n
       @ [0x20, 0x4E2A, 0x4F9D, 0x8D56, 0x6587, 0x4EF6, 0x672A, 0x663E, 0x793A]"

text \<open>
  The variables \<open>collectDependencies\<close> updates. The dependency tree, which the
  source builds beside them for its log, is left out: nothing reads it.
\<close>

record walkState =
  accRelatedFiles :: "jsstring list"
  accDependencyPaths :: "jsstring list"
  accDependencyDepths :: "nat list"
  processedPaths :: "jsstring list"

definition dependenciesOf ::
  "jsstring \<Rightarrow> component list \<Rightarrow> FileInfo \<times> FileInfo list option \<Rightarrow> jsstring list" where
  "dependenciesOf cwd allComponentFiles currentComponent =
     (case snd currentComponent of
        Some ds \<Rightarrow>
          if length ds > 0 then map path ds
          else analyzeDependencies cwd (fst currentComponent) (map comp_file allComponentFiles)
      | None \<Rightarrow> analyzeDependencies cwd (fst currentComponent) (map comp_file allComponentFiles))"

definition recordDependency :: "component \<Rightarrow> jsstring \<Rightarrow> nat \<Rightarrow> walkState \<Rightarrow> walkState" where
  "recordDependency depComponent depPath currentDepth st =
     (let st1 = st\<lparr>accDependencyPaths := accDependencyPaths st @ [depPath],
                   accDependencyDepths := accDependencyDepths st @ [currentDepth + 1]\<rparr>
      in if length (comp_code depComponent) < 8000
         then st1\<lparr>accRelatedFiles := accRelatedFiles st1 @
                [snippetHeader depPath (currentDepth + 1) @ truncateCode (comp_code depComponent)]\<rparr>
         else st1)"

function collectDependencies ::
    "jsstring \<Rightarrow> component list \<Rightarrow> nat \<Rightarrow> FileInfo \<times> FileInfo list option \<Rightarrow> nat \<Rightarrow> walkState
       \<Rightarrow> walkState"
  and forEachDependency ::
    "jsstring \<Rightarrow> component list \<Rightarrow> nat \<Rightarrow> jsstring list \<Rightarrow> nat \<Rightarrow> walkState \<Rightarrow> walkState" where
  "collectDependencies cwd allComponentFiles maxDepth currentComponent currentDepth st =
     (if currentDepth \<ge> maxDepth \<or> path (fst currentComponent) \<in> set (processedPaths st) then st
      else forEachDependency cwd allComponentFiles maxDepth
             (take 5 (dependenciesOf cwd allComponentFiles currentComponent)) currentDepth
             (st\<lparr>processedPaths := setAdd (path (fst currentComponent)) (processedPaths st)\<rparr>))"
| "forEachDependency cwd allComponentFiles maxDepth [] currentDepth st = st"
| "forEachDependency cwd allComponentFiles maxDepth (depPath # rest) currentDepth st =
     (case List.find (\<lambda>c. comp_path c = depPath) allComponentFiles of
        None \<Rightarrow> forEachDependency cwd allComponentFiles maxDepth rest currentDepth st
      | Some depComponent \<Rightarrow>
          if depPath \<in> set (processedPaths st)
          then forEachDependency cwd allComponentFiles maxDepth rest currentDepth st
          else forEachDependency cwd allComponentFiles maxDepth rest currentDepth
                 (collectDependencies cwd allComponentFiles maxDepth
                    (comp_file depComponent, comp_dependencies depComponent) (currentDepth + 1)
                    (recordDependency depComponent depPath currentDepth st)))"
  by pat_completeness auto
termination
  by (relation "inv_image (less_than <*lex*> less_than)
        (\<lambda>x. case x of
           Inl (cwd, acf, maxDepth, cc, currentDepth, st) \<Rightarrow> (2 * (maxDepth - currentDepth), 0)
         | Inr (cwd, acf, maxDepth, deps, currentDepth, st) \<Rightarrow>
             (2 * (maxDepth - currentDepth) - 1, Suc (length deps)))")
     auto

record dependencyContext =
  relatedFiles :: "jsstring list"
  dependencyPaths :: "jsstring list"
  dependencyDepths :: "nat list"

definition buildDependencyContext ::
  "jsstring \<Rightarrow> component \<Rightarrow> component list \<Rightarrow> nat \<Rightarrow> dependencyContext" where
  "buildDependencyContext cwd component allComponentFiles maxDepth =
     (let st = collectDependencies cwd allComponentFiles maxDepth
                 (comp_file component, comp_dependencies component) 0
                 \<lparr>accRelatedFiles = [], accDependencyPaths = [], accDependencyDepths = [],
                  processedPaths = []\<rparr>;
          maxFiles = 8;
          limitedFiles = take maxFiles (accRelatedFiles st)
      in \<lparr>relatedFiles =
            (if length (accRelatedFiles st) > maxFiles
             then limitedFiles @ [omittedMarker (length (accRelatedFiles st) - maxFiles)]
             else limitedFiles),
          dependencyPaths = accDependencyPaths st,
          dependencyDepths = accDependencyDepths st\<rparr>)"

section \<open>The Batch Orchestrator\<close>

definition calculateOptimalBatchSize :: "nat \<Rightarrow> nat" where
  "calculateOptimalBatchSize totalComponents =
     (if totalComponents \<le> 10 then 2
      else if totalComponents \<le> 30 then 3
      else if totalComponents \<le> 60 then 4
      else 5)"

text \<open>
  The external analyzer \<open>llmManager.analyzeComponent\<close> is a parameter: from the code
  of a component, its name and the snippets it answers with a result or throws. Of an
  error only its \<open>name\<close> is read, and only against \<open>'AbortError'\<close>. A
  \<open>ComponentInfo\<close> is the analyzer's result with the path of the component relative
  to the working directory.
\<close>

datatype thrown = AbortError | OtherError

datatype 'r analysis = Analyzed 'r | Throws thrown

type_synonym 'r analyzer = "jsstring \<Rightarrow> jsstring \<Rightarrow> jsstring list \<Rightarrow> 'r analysis"

type_synonym 'r componentInfo = "'r \<times> jsstring"

datatype 'a settled = Fulfilled 'a | Rejected thrown

text \<open>One task of \<open>processBatchWithDependencies\<close>; \<open>aborted\<close> is \<open>signal.aborted\<close>.\<close>

definition analyzeOne ::
  "'r analyzer \<Rightarrow> jsstring \<Rightarrow> component list \<Rightarrow> bool \<Rightarrow> component
     \<Rightarrow> 'r componentInfo option settled" where
  "analyzeOne analyzeComponent cwd allComponentFiles aborted component =
     (if aborted then Rejected OtherError
      else let dependencyContext = buildDependencyContext cwd component allComponentFiles 3 in
        (case analyzeComponent (comp_code component) (comp_name component)
                (relatedFiles dependencyContext) of
           Analyzed analysisResult \<Rightarrow>
             Fulfilled (Some (analysisResult, path_relative cwd cwd (comp_path component)))
         | Throws e \<Rightarrow> if aborted \<or> e = AbortError then Rejected e else Fulfilled None))"

text \<open>\<open>Promise.all\<close> over the tasks: every result in order, or a rejection.\<close>

fun promiseAll :: "'a settled list \<Rightarrow> 'a list settled" where
  "promiseAll [] = Fulfilled []"
| "promiseAll (Rejected e # ps) = Rejected e"
| "promiseAll (Fulfilled x # ps) =
     (case promiseAll ps of Rejected e \<Rightarrow> Rejected e | Fulfilled xs \<Rightarrow> Fulfilled (x # xs))"

definition processBatchWithDependencies ::
  "'r analyzer \<Rightarrow> jsstring \<Rightarrow> component list \<Rightarrow> component list \<Rightarrow> bool
     \<Rightarrow> 'r componentInfo option list settled" where
  "processBatchWithDependencies analyzeComponent cwd batch allComponentFiles aborted =
     promiseAll (map (analyzeOne analyzeComponent cwd allComponentFiles aborted) batch)"

text \<open>
  \<open>analyzeComponents\<close> installs \<open>handleInterrupt\<close> for SIGINT and SIGTERM. Node runs
  a signal handler between two turns of the event loop, so a signal is handled while
  the run waits. \<open>signals b\<close> says whether a signal arrives while batch number \<open>b\<close>
  is in flight. The handler ends in \<open>process.exit(130)\<close>; a run is therefore a list
  returned or an exit code. A signal during the delay after a batch ends the process the
  same way, one line of the log later.
\<close>

record runState =
  abortController :: bool
  isAborted :: bool

datatype 'a handled = Resumed 'a | Exited nat

definition handleInterrupt :: "runState \<Rightarrow> runState handled" where
  "handleInterrupt st =
     (if abortController st \<and> \<not> isAborted st then Exited 130 else Resumed st)"

datatype 'r run = Returned "'r componentInfo list" | ProcessExit nat

text \<open>The lines of the log that tell the course of a run.\<close>

datatype logLine =
    NoComponentsWarning
  | TooManyNotice nat
  | BatchPlan nat nat
  | BatchCompleted nat nat nat
  | BatchCancelled nat
  | BatchFailed nat
  | AnalysisCancelled nat
  | AnalysisSucceeded nat

definition finishRun :: "runState \<Rightarrow> 'r componentInfo list \<Rightarrow> logLine list \<Rightarrow> 'r run \<times> logLine list" where
  "finishRun st components log =
     (Returned components,
      log @ [if isAborted st then AnalysisCancelled (length components)
             else AnalysisSucceeded (length components)])"

text \<open>
  The loop \<open>for (let i = 0; i < componentsToAnalyze.length; i += batchSize)\<close>;
  \<open>batchSize\<close> is \<open>calculateOptimalBatchSize(componentsToAnalyze.length)\<close>
  throughout.
\<close>

function batchLoop ::
  "'r analyzer \<Rightarrow> (nat \<Rightarrow> bool) \<Rightarrow> jsstring \<Rightarrow> component list \<Rightarrow> component list \<Rightarrow> nat
     \<Rightarrow> runState \<Rightarrow> 'r componentInfo list \<Rightarrow> logLine list \<Rightarrow> 'r run \<times> logLine list" where
  "batchLoop analyzeComponent signals cwd componentFiles componentsToAnalyze i st components log =
     (let batchSize = calculateOptimalBatchSize (length componentsToAnalyze);
          totalBatches = (length componentsToAnalyze + batchSize - 1) div batchSize
      in if \<not> i < length componentsToAnalyze then finishRun st components log
         else if isAborted st then finishRun st components log
         else
           let batch = take batchSize (drop i componentsToAnalyze);
               batchNumber = i div batchSize + 1;
               st1 = st\<lparr>abortController := True\<rparr>
           in (case (if signals batchNumber then handleInterrupt st1 else Resumed st1) of
                 Exited exitCode \<Rightarrow> (ProcessExit exitCode, log)
               | Resumed st2 \<Rightarrow>
                   (case processBatchWithDependencies analyzeComponent cwd batch componentFiles
                           (isAborted st2) of
                      Fulfilled batchResults \<Rightarrow>
                        let validResults = List.map_filter (\<lambda>r. r) batchResults
                        in batchLoop analyzeComponent signals cwd componentFiles
                             componentsToAnalyze (i + batchSize) st2 (components @ validResults)
                             (log @ [BatchCompleted batchNumber (length validResults) (length batch)])
                    | Rejected e \<Rightarrow>
                        if e = AbortError \<or> isAborted st2
                        then finishRun st2 components (log @ [BatchCancelled batchNumber])
                        else batchLoop analyzeComponent signals cwd componentFiles
                               componentsToAnalyze (i + batchSize) st2 components
                               (log @ [BatchFailed batchNumber]))))"
  by pat_completeness auto
termination
  by (relation "measure (\<lambda>(a, sg, cwd, cf, cs, i, st, comps, log). length cs - i)")
     (auto simp: calculateOptimalBatchSize_def)

definition analyzeComponents ::
  "'r analyzer \<Rightarrow> (nat \<Rightarrow> bool) \<Rightarrow> jsstring \<Rightarrow> component list \<Rightarrow> 'r run \<times> logLine list" where
  "analyzeComponents analyzeComponent signals cwd componentFiles =
     (if length componentFiles = 0 then (Returned [], [NoComponentsWarning])
      else
        let maxComponents = 100;
            componentsToAnalyze = take maxComponents componentFiles;
            log = (if length componentFiles > maxComponents then [TooManyNotice maxComponents]
                   else []);
            batchSize = calculateOptimalBatchSize (length componentsToAnalyze);
            totalBatches = (length componentsToAnalyze + batchSize - 1) div batchSize
        in batchLoop analyzeComponent signals cwd componentFiles componentsToAnalyze 0
             \<lparr>abortController = False, isAborted = False\<rparr> []
             (log @ [BatchPlan batchSize totalBatches]))"

section \<open>Notions used in the statements\<close>

text \<open>
  The names a list of specifiers exports as values, and the names a statement without a
  \<open>from\<close> clause exports: through a specifier list, or as the identifier or the named
  function of \<open>export default\<close>.
\<close>

fun valueSpecifierNames :: "specifier list \<Rightarrow> jsstring list" where
  "valueSpecifierNames [] = []"
| "valueSpecifierNames (ExportSpecifier exported local kind # specifiers) =
     (if kind = KindType then valueSpecifierNames specifiers
      else nameOf exported # valueSpecifierNames specifiers)"
| "valueSpecifierNames (_ # specifiers) = valueSpecifierNames specifiers"

fun localExportNames :: "node \<Rightarrow> jsstring list" where
  "localExportNames (ExportNamedDeclaration kind specifiers None) =
     (if kind = KindType then [] else valueSpecifierNames specifiers)"
| "localExportNames (ExportDefaultDeclaration (DeclIdentifier n)) = [n]"
| "localExportNames (ExportDefaultDeclaration (DeclFunction (Some n))) = [n]"
| "localExportNames _ = []"

fun isReExport :: "node \<Rightarrow> bool" where
  "isReExport (ExportNamedDeclaration kind specifiers (Some src)) = True"
| "isReExport (ExportAllDeclaration src) = True"
| "isReExport _ = False"

fun isTooManyNotice :: "logLine \<Rightarrow> bool" where
  "isTooManyNotice (TooManyNotice n) = True"
| "isTooManyNotice _ = False"

text \<open>The modules an entry file re-exports with \<open>export * from\<close>, in order.\<close>

fun wildcardSources :: "node list \<Rightarrow> jsstring list" where
  "wildcardSources [] = []"
| "wildcardSources (ExportAllDeclaration src # ast) = src # wildcardSources ast"
| "wildcardSources (_ # ast) = wildcardSources ast"

text \<open>
  The map the traversal of a tree leaves before the wildcard results are merged into it:
  its named, local and default exports. The modules the wildcard re-exports of a file lead
  to: the sources in the tree Babel gives or, when Babel rejects the file, the matches of
  \<open>exportStarPattern\<close>, each resolved in the Source Index.
  \<open>wildcardsNestWithin d\<close> says that every chain of wildcard re-exports that starts
  at the file passes through \<open>d\<close> modules at most, the file included: the chains end,
  and the resolution of the file needs \<open>d\<close> nested calls at most.
\<close>

definition traversalMap :: "jsstring \<Rightarrow> FileInfo list \<Rightarrow> jsstring \<Rightarrow> node list \<Rightarrow> nameMap" where
  "traversalMap cwd allFiles indexPath ast =
     fst (fold (indexVisitor (\<lambda>c p. Inr []) cwd indexPath allFiles) ast ([], []))"

definition wildcardTargets ::
  "parser \<Rightarrow> jsstring \<Rightarrow> FileInfo list \<Rightarrow> jsstring \<Rightarrow> jsstring \<Rightarrow> FileInfo list" where
  "wildcardTargets parse cwd allFiles fileContent indexPath =
     List.map_filter
       (\<lambda>src. case resolveFilePath cwd src indexPath allFiles of
                None \<Rightarrow> None
              | Some p \<Rightarrow> List.find (\<lambda>file. path file = p) allFiles)
       (case parse fileContent of
          Some ast \<Rightarrow> wildcardSources ast
        | None \<Rightarrow> execAll exportStarPattern None fileContent)"

primrec wildcardsNestWithin ::
  "nat \<Rightarrow> parser \<Rightarrow> jsstring \<Rightarrow> FileInfo list \<Rightarrow> jsstring \<Rightarrow> jsstring \<Rightarrow> bool" where
  "wildcardsNestWithin 0 parse cwd allFiles fileContent indexPath = False"
| "wildcardsNestWithin (Suc d) parse cwd allFiles fileContent indexPath =
     list_all (\<lambda>file. wildcardsNestWithin d parse cwd allFiles (content file) (path file))
              (wildcardTargets parse cwd allFiles fileContent indexPath)"

text \<open>
  For the tracer: a specifier that exports a name, a statement that re-exports it from a
  module, a node the tracer takes for its implementation, and a statement that bears on
  the trace of the name at all. \<open>reExportsOnly ast n l src\<close> says that the only
  node of the tree that bears on \<open>n\<close> is one re-export of it from \<open>src\<close>, under
  the local name \<open>l\<close>.
\<close>

fun exportsName :: "jsstring \<Rightarrow> specifier \<Rightarrow> bool" where
  "exportsName n (ExportSpecifier exported local kind) = (nameOf exported = n)"
| "exportsName n _ = False"

fun reExportsName :: "jsstring \<Rightarrow> node \<Rightarrow> bool" where
  "reExportsName n (ExportNamedDeclaration kind specifiers (Some src)) =
     list_ex (exportsName n) specifiers"
| "reExportsName n _ = False"

fun declares :: "jsstring \<Rightarrow> node \<Rightarrow> bool" where
  "declares n (FunctionDeclaration ident) = (ident = Some n)"
| "declares n (VariableDeclarator ident i) = (ident = Some n \<and> isComponentInit i)"
| "declares n (ClassDeclaration ident) = (ident = Some n)"
| "declares n (ExportDefaultDeclaration d) = (d = DeclIdentifier n \<or> d = DeclFunction (Some n))"
| "declares n _ = False"

fun isWildcard :: "node \<Rightarrow> bool" where
  "isWildcard (ExportAllDeclaration src) = True"
| "isWildcard _ = False"

definition touches :: "jsstring \<Rightarrow> node \<Rightarrow> bool" where
  "touches n nd = (declares n nd \<or> reExportsName n nd \<or> isWildcard nd)"

fun localNameOf :: "specifier \<Rightarrow> jsstring" where
  "localNameOf (ExportSpecifier exported (Identifier l) kind) = l"
| "localNameOf (ExportSpecifier exported (StringLiteral v) kind) = nameOf exported"
| "localNameOf (ExportDefaultSpecifier n) = n"
| "localNameOf (ExportNamespaceSpecifier e) = nameOf e"

definition reExportsOnly :: "node list \<Rightarrow> jsstring \<Rightarrow> jsstring \<Rightarrow> jsstring \<Rightarrow> bool" where
  "reExportsOnly ast n l src =
     (case filter (touches n) ast of
        [ExportNamedDeclaration kind specifiers (Some s)] \<Rightarrow>
          s = src \<and> (case filter (exportsName n) specifiers of
                        [spec] \<Rightarrow> localNameOf spec = l
                      | _ \<Rightarrow> False)
      | _ \<Rightarrow> False)"

text \<open>The extensions \<open>analyzeDependencies\<close> appends to a resolved import path.\<close>

definition plainExtensions :: "jsstring list" where
  "plainExtensions = map js [''.ts'', ''.tsx'', ''.js'', ''.jsx'']"

text \<open>An entry of \<open>relatedFiles\<close> that the walk pushed for a component of the list: its
  header line, then its code as \<open>truncateCode\<close> leaves it.\<close>

definition isSnippetOf :: "component list \<Rightarrow> jsstring \<Rightarrow> bool" where
  "isSnippetOf allComponentFiles s =
     (\<exists>depComponent \<in> set allComponentFiles. \<exists>depth.
         s = snippetHeader (comp_path depComponent) depth @ truncateCode (comp_code depComponent)
       \<and> length (comp_code depComponent) < 8000)"

text \<open>
  What a run keeps of one candidate: the analyzer's result with the path relative to the
  working directory, or nothing when the analyzer throws. \<open>throwsAbort\<close> says that the
  analyzer throws an \<open>AbortError\<close> on the candidate, and \<open>batchAt\<close> is the slice of
  the candidates that makes batch number \<open>j + 1\<close>.
\<close>

definition analysisOf ::
  "'r analyzer \<Rightarrow> jsstring \<Rightarrow> component list \<Rightarrow> component \<Rightarrow> 'r componentInfo option" where
  "analysisOf analyzeComponent cwd allComponentFiles component =
     (case analyzeComponent (comp_code component) (comp_name component)
             (relatedFiles (buildDependencyContext cwd component allComponentFiles 3)) of
        Analyzed analysisResult \<Rightarrow>
          Some (analysisResult, path_relative cwd cwd (comp_path component))
      | Throws e \<Rightarrow> None)"

definition throwsAbort :: "'r analyzer \<Rightarrow> jsstring \<Rightarrow> component list \<Rightarrow> component \<Rightarrow> bool" where
  "throwsAbort analyzeComponent cwd allComponentFiles component =
     (analyzeComponent (comp_code component) (comp_name component)
        (relatedFiles (buildDependencyContext cwd component allComponentFiles 3))
      = Throws AbortError)"

definition batchAt :: "component list \<Rightarrow> nat \<Rightarrow> component list" where
  "batchAt componentsToAnalyze j =
     take (calculateOptimalBatchSize (length componentsToAnalyze))
          (drop (j * calculateOptimalBatchSize (length componentsToAnalyze)) componentsToAnalyze)"

text \<open>The \<open>ComponentInfo\<close> an analyzer that answers with the name gives a component.\<close>

definition infoOf :: "jsstring \<Rightarrow> component \<Rightarrow> jsstring componentInfo" where
  "infoOf cwd component = (comp_name component, path_relative cwd cwd (comp_path component))"
section \<open>Example inputs\<close>

definition fileOf :: "string \<Rightarrow> string \<Rightarrow> FileInfo" where
  "fileOf p c = \<lparr>path = js p, content = js c, size_bytes = length c, type_ext = js ''.ts'',
                 lastModified = 0\<rparr>"

definition componentOf :: "string \<Rightarrow> FileInfo \<Rightarrow> component" where
  "componentOf n f = \<lparr>comp_name = js n, comp_code = content f, comp_path = path f,
                       comp_file = f, comp_dependencies = Some []\<rparr>"

text \<open>An analyzer that answers every component with its name.\<close>

definition echoAnalyzer :: "jsstring analyzer" where
  "echoAnalyzer code componentName snippets = Analyzed componentName"

text \<open>
  An entry file that declares and exports \<open>Card\<close> and \<open>Config\<close> itself, with the
  tree Babel gives it.
\<close>

definition localEntry :: FileInfo where
  "localEntry = fileOf ''/s/index.ts'' ''let Card, Config; export { Card, Config };''"

definition localEntryAst :: "node list" where
  "localEntryAst =
     [VariableDeclarator (Some (js ''Card'')) OtherInit,
      VariableDeclarator (Some (js ''Config'')) OtherInit,
      ExportNamedDeclaration KindValue
        [ExportSpecifier (Identifier (js ''Card'')) (Identifier (js ''Card'')) KindValue,
         ExportSpecifier (Identifier (js ''Config'')) (Identifier (js ''Config'')) KindValue]
        None]"

definition localParse :: parser where
  "localParse c = (if c = content localEntry then Some localEntryAst else None)"

















definition ringA :: FileInfo where
  "ringA = fileOf ''/r/a.ts'' ''export * from './b';''"

definition ringB :: FileInfo where
  "ringB = fileOf ''/r/b.ts'' ''export * from './a';''"

definition ringParse :: parser where
  "ringParse c = map_of [(content ringA, [ExportAllDeclaration (js ''./b'')]),
                         (content ringB, [ExportAllDeclaration (js ''./a'')])] c"

text \<open>
  For the tracer: two files that re-export \<open>Tab\<close> from each other; an index that
  re-exports the default export of \<open>Bar.tsx\<close> as \<open>Foo\<close>; and a chain
  \<open>a \<rightarrow> b \<rightarrow> c\<close> for \<open>Btn\<close> in which \<open>a\<close> also re-exports everything of
  \<open>d\<close>.
\<close>

definition cycleA :: FileInfo where
  "cycleA = fileOf ''/c/a.ts'' ''export { Tab } from './b';''"

definition cycleB :: FileInfo where
  "cycleB = fileOf ''/c/b.ts'' ''export { Tab } from './a';''"

definition reExportOf :: "string \<Rightarrow> string \<Rightarrow> node" where
  "reExportOf n src = ExportNamedDeclaration KindValue
     [ExportSpecifier (Identifier (js n)) (Identifier (js n)) KindValue] (Some (js src))"

definition cycleParse :: parser where
  "cycleParse c = map_of [(content cycleA, [reExportOf ''Tab'' ''./b'']),
                          (content cycleB, [reExportOf ''Tab'' ''./a''])] c"

definition fooIndex :: FileInfo where
  "fooIndex = fileOf ''/p/index.ts'' ''export { default as Foo } from './Bar';''"

definition barFile :: FileInfo where
  "barFile = fileOf ''/p/Bar.tsx'' ''export default function Impl() {}''"

definition fooIndexAst :: "node list" where
  "fooIndexAst = [ExportNamedDeclaration KindValue
     [ExportSpecifier (Identifier (js ''Foo'')) (Identifier (js ''default'')) KindValue]
     (Some (js ''./Bar''))]"

definition barAst :: "node list" where
  "barAst = [ExportDefaultDeclaration (DeclFunction (Some (js ''Impl''))),
             FunctionDeclaration (Some (js ''Impl''))]"

definition fooParse :: parser where
  "fooParse c = map_of [(content fooIndex, fooIndexAst), (content barFile, barAst)] c"

definition chainA :: FileInfo where
  "chainA = fileOf ''/k/a.ts'' ''export { Btn } from './b'; export * from './d';''"

definition chainB :: FileInfo where
  "chainB = fileOf ''/k/b.ts'' ''export { Btn } from './c';''"

definition chainC :: FileInfo where
  "chainC = fileOf ''/k/c.ts'' ''export function Btn() {}''"

definition chainD :: FileInfo where
  "chainD = fileOf ''/k/d.ts'' ''export const y = 1;''"

definition chainFiles :: "FileInfo list" where
  "chainFiles = [chainA, chainB, chainC, chainD]"

definition chainParse :: parser where
  "chainParse c = map_of
     [(content chainA, [reExportOf ''Btn'' ''./b'', ExportAllDeclaration (js ''./d'')]),
      (content chainB, [reExportOf ''Btn'' ''./c'']),
      (content chainC, [ExportNamedDeclaration KindValue [] None,
                        FunctionDeclaration (Some (js ''Btn''))]),
      (content chainD, [ExportNamedDeclaration KindValue [] None,
                        VariableDeclarator (Some (js ''y'')) OtherInit])] c"

text \<open>
  For the dependency analysis: a file with three imports, one of a directory, one of a
  package and one of a file that exists as \<open>b.tsx\<close> and as \<open>b.js\<close>; and a file
  whose one import is the directory.
\<close>

definition importer :: FileInfo where
  "importer = \<lparr>path = js ''/p/a.ts'',
     content = js ''import d from './dir';'' @ [0x0A] @ js ''import r from 'react';'' @ [0x0A]
               @ js ''import b from './b';'',
     size_bytes = 66, type_ext = js ''.ts'', lastModified = 0\<rparr>"

definition importerFiles :: "FileInfo list" where
  "importerFiles = [importer, fileOf ''/p/dir/index.ts'' ''export {};'',
                    fileOf ''/p/b.js'' ''export {};'', fileOf ''/p/b.tsx'' ''export {};'']"

definition dirImporter :: FileInfo where
  "dirImporter = fileOf ''/p/c.ts'' ''import d from './dir';''"

text \<open>Ten components: the first depends on five others, the second of them (3001 spaces of
  code) on four more, the rest on nothing. The walk meets nine dependencies.\<close>

definition longCode :: jsstring where
  "longCode = replicate 3001 0x20"

definition walkFile :: "nat \<Rightarrow> FileInfo" where
  "walkFile i = \<lparr>path = js ''/m/'' @ replicate (Suc i) 0x61 @ js ''.ts'',
                 content = (if i = 1 then longCode else js ''1;''),
                 size_bytes = (if i = 1 then 3001 else 2), type_ext = js ''.ts'',
                 lastModified = 0\<rparr>"

definition walkComponent :: "nat \<Rightarrow> component" where
  "walkComponent i = \<lparr>comp_name = replicate (Suc i) 0x41, comp_code = content (walkFile i),
     comp_path = path (walkFile i), comp_file = walkFile i,
     comp_dependencies = Some (if i = 0 then map walkFile [1, 2, 3, 4, 5]
                               else if i = 1 then map walkFile [6, 7, 8, 9] else [])\<rparr>"

definition walkComponents :: "component list" where
  "walkComponents = map walkComponent [0..<10]"

definition snippetOf :: "nat \<times> nat \<Rightarrow> jsstring" where
  "snippetOf = (\<lambda>(i, depth).
     snippetHeader (path (walkFile i)) depth @ truncateCode (content (walkFile i)))"

text \<open>Three components without imports: two batches of size 2.\<close>

definition trio :: "component list" where
  "trio = [componentOf ''A'' (fileOf ''/w/a.ts'' ''1;''),
           componentOf ''B'' (fileOf ''/w/b.ts'' ''1;''),
           componentOf ''C'' (fileOf ''/w/c.ts'' ''1;'')]"
section \<open>Evaluation on the examples\<close>

text \<open>The definitions that a pattern match, a name test and a path operation on concrete strings
  unfold to.\<close>

lemmas rx_eval = rx_test_def seqs_def alts_def liti_def lit_def plus_def opt_def js_def
  sameCaseless_def asciiUpper_def isLowerAZ_def isUpperAZ_def isDigit09_def isLetter_def
  isAlnum_def isWordChar_def isSpace_def isDot_def wordBefore_def wordAfter_def

lemmas name_eval = isPascalCase_def isLikelyComponent_def isOnlyTypeExport_def
  hasComponentExport_def utilPatterns_def utilProviders_def

lemmas path_eval = resolveFilePath_def possibleExtensions_def path_resolve_def path_dirname_def
  path_basename_def stripTrailingSlashes_def isAbsolute_def slash_def

lemmas cycle_eval = cycleA_def cycleB_def cycleParse_def reExportOf_def fileOf_def

lemmas notion_eval = reExportsOnly_def touches_def

lemmas foo_eval = fooIndex_def barFile_def fooIndexAst_def barAst_def fooParse_def fileOf_def

lemmas chain_eval = chainA_def chainB_def chainC_def chainD_def chainFiles_def chainParse_def
  reExportOf_def fileOf_def

lemmas import_eval = importer_def importerFiles_def fileOf_def importPre_def importGrp_def
  importPost_def isQuote_def rx_capture_def

section \<open>The Export Graph Resolver: local definitions\<close>

lemma map_of_recordLocalExports:
  "map_of (recordLocalExports p specs m) n =
     (if n \<in> set (valueSpecifierNames specs) \<and> isPascalCase n then Some p else map_of m n)"
  by (induction p specs m rule: recordLocalExports.induct)
     (auto simp: update_conv' split: if_splits)

lemma map_of_filterComponents:
  "map_of (filterComponents c m) n =
     (if isPascalCase n \<and> isLikelyComponent n c then map_of m n else None)"
  unfolding filterComponents_def
  by (induction m) auto

lemma indexVisitor_local:
  assumes "\<not> isReExport nd"
    and "indexVisitor ex cwd ip fs nd (m, stars) = (m', stars')"
  shows "stars' = stars \<and>
         map_of m' n = (if n \<in> set (localExportNames nd) \<and> isPascalCase n then Some ip
                        else map_of m n)"
proof (cases nd)
  case (ExportNamedDeclaration kind specifiers source)
  with assms show ?thesis
    by (cases source) (auto simp: map_of_recordLocalExports split: if_splits)
next
  case (ExportDefaultDeclaration d)
  show ?thesis
  proof (cases d)
    case (DeclIdentifier n')
    with assms ExportDefaultDeclaration show ?thesis
      by (auto simp: update_conv' split: if_splits)
  next
    case (DeclFunction idopt)
    with assms ExportDefaultDeclaration show ?thesis
      by (cases idopt) (auto simp: update_conv' split: if_splits)
  next
    case DeclOther
    with assms ExportDefaultDeclaration show ?thesis by auto
  qed
qed (use assms in auto)

lemma fold_indexVisitor_local:
  assumes "\<forall>nd \<in> set ast. \<not> isReExport nd"
  shows "fold (indexVisitor ex cwd ip fs) ast (m, stars) = (m', stars') \<Longrightarrow>
         stars' = stars \<and>
         map_of m' n = (if n \<in> set (concat (map localExportNames ast)) \<and> isPascalCase n
                        then Some ip else map_of m n)"
  using assms
proof (induction ast arbitrary: m stars)
  case Nil
  then show ?case by simp
next
  case (Cons nd ast)
  obtain m1 s1 where step: "indexVisitor ex cwd ip fs nd (m, stars) = (m1, s1)"
    by (cases "indexVisitor ex cwd ip fs nd (m, stars)")
  from Cons.prems(2) have nr: "\<not> isReExport nd" by simp
  from indexVisitor_local[OF nr step, of n]
  have s1: "s1 = stars"
    and m1: "map_of m1 n = (if n \<in> set (localExportNames nd) \<and> isPascalCase n then Some ip
                            else map_of m n)" by blast+
  from Cons.prems(1) step
  have rest: "fold (indexVisitor ex cwd ip fs) ast (m1, s1) = (m', stars')" by simp
  from Cons.prems(2) have "\<forall>nd \<in> set ast. \<not> isReExport nd" by simp
  from Cons.IH[OF rest this] s1 m1 show ?case by auto
qed

lemma utilPattern_excluded:
  "list_ex (\<lambda>pattern. rx_test pattern n) utilPatterns \<Longrightarrow> \<not> isLikelyComponent n c"
  by (simp add: isLikelyComponent_def)

lemma Config_is_PascalCase: "isPascalCase (js ''Config'')"
  by (simp add: name_eval rx_eval)

lemma Config_is_excluded: "\<not> isLikelyComponent (js ''Config'') c"
proof -
  have "list_ex (\<lambda>pattern. rx_test pattern (js ''Config'')) utilPatterns"
    by (simp add: name_eval rx_eval)
  then show ?thesis by (rule utilPattern_excluded)
qed

lemma localParse_entry: "localParse (content localEntry) = Some localEntryAst"
  by (simp add: localParse_def)

text \<open>
  C3, as stated: for an entry file with local definitions only, the name map is the set
  of the PascalCase exported names, each mapped to the entry file. The entry file of
  the example exports the PascalCase name \<open>Config\<close>, and the map has no entry for
  it.
\<close>

theorem local_exports_counterexample:
  "js ''Config'' \<in> set (concat (map localExportNames localEntryAst))
   \<and> isPascalCase (js ''Config'')
   \<and> (case extractComponentInfoFromIndex 1 localParse (js ''/w'') [localEntry]
              (content localEntry) (path localEntry) of
        Inl e \<Rightarrow> False
      | Inr m \<Rightarrow> map_of m (js ''Config'') = None)"
proof -
  have a: "js ''Config'' \<in> set (concat (map localExportNames localEntryAst))"
    by (simp add: localEntryAst_def)
  have "extractComponentInfoFromIndex (Suc 0) localParse (js ''/w'') [localEntry]
          (content localEntry) (path localEntry)
        = Inr (filterComponents (content localEntry)
                (fst (fold (indexVisitor
                        (extractComponentInfoFromIndex 0 localParse (js ''/w'') [localEntry])
                        (js ''/w'') (path localEntry) [localEntry]) localEntryAst ([], []))))"
    by (simp add: localParse_entry localEntryAst_def split: prod.splits)
  then have c: "(case extractComponentInfoFromIndex 1 localParse (js ''/w'') [localEntry]
              (content localEntry) (path localEntry) of
        Inl e \<Rightarrow> False
      | Inr m \<Rightarrow> map_of m (js ''Config'') = None)"
    by (simp add: map_of_filterComponents Config_is_excluded)
  from a Config_is_PascalCase c show ?thesis by blast
qed

text \<open>
  C3, amended: for an entry file that Babel parses and whose export statements have no
  \<open>from\<close> clause, the name map holds exactly the names the file exports through
  specifier lists or \<open>export default\<close> that are PascalCase and pass
  \<open>isLikelyComponent\<close> against the file's text, each mapped to the entry file.
\<close>

theorem local_exports_map:
  assumes "parse fileContent = Some ast"
    and "\<forall>nd \<in> set ast. \<not> isReExport nd"
  shows "\<exists>m. extractComponentInfoFromIndex (Suc fuel) parse cwd allFiles fileContent indexPath = Inr m
           \<and> (\<forall>n. map_of m n =
                 (if n \<in> set (concat (map localExportNames ast)) \<and> isPascalCase n
                     \<and> isLikelyComponent n fileContent
                  then Some indexPath else None))"
proof -
  let ?ex = "extractComponentInfoFromIndex fuel parse cwd allFiles"
  obtain m1 s1 where f: "fold (indexVisitor ?ex cwd indexPath allFiles) ast ([], []) = (m1, s1)"
    by (cases "fold (indexVisitor ?ex cwd indexPath allFiles) ast ([], [])")
  from fold_indexVisitor_local[OF assms(2) f]
  have s1: "s1 = []"
    and m1: "\<And>n. map_of m1 n =
        (if n \<in> set (concat (map localExportNames ast)) \<and> isPascalCase n then Some indexPath
         else None)"
    by auto
  have "extractComponentInfoFromIndex (Suc fuel) parse cwd allFiles fileContent indexPath
          = Inr (filterComponents fileContent m1)"
    using assms(1) f s1 by simp
  then show ?thesis
    by (auto simp: map_of_filterComponents m1)
qed

theorem local_exports_map_witness:
  "localParse (content localEntry) = Some localEntryAst
   \<and> \<not> list_ex isReExport localEntryAst
   \<and> extractComponentInfoFromIndex 1 localParse (js ''/w'') [localEntry]
        (content localEntry) (path localEntry) = Inr [(js ''Card'', js ''/s/index.ts'')]
   \<and> (\<exists>m. extractComponentInfoFromIndex 1 localParse (js ''/w'') [localEntry]
              (content localEntry) (path localEntry) = Inr m
          \<and> map_of m (js ''Card'') = Some (js ''/s/index.ts'')
          \<and> map_of m (js ''Config'') = None)"
proof -
  have h2: "\<forall>nd \<in> set localEntryAst. \<not> isReExport nd"
    by (simp add: localEntryAst_def)
  have a: "\<not> list_ex isReExport localEntryAst"
    by (simp add: localEntryAst_def)
  have b: "extractComponentInfoFromIndex 1 localParse (js ''/w'') [localEntry]
        (content localEntry) (path localEntry) = Inr [(js ''Card'', js ''/s/index.ts'')]"
    by (simp add: localParse_def localEntryAst_def localEntry_def fileOf_def filterComponents_def
          name_eval rx_eval)
  from local_exports_map[where parse = localParse and fileContent = "content localEntry"
      and ast = localEntryAst and fuel = 0 and cwd = "js ''/w''" and allFiles = "[localEntry]"
      and indexPath = "path localEntry", OF localParse_entry h2]
  obtain m where m: "extractComponentInfoFromIndex 1 localParse (js ''/w'') [localEntry]
              (content localEntry) (path localEntry) = Inr m"
    and all: "\<And>n. map_of m n =
                 (if n \<in> set (concat (map localExportNames localEntryAst)) \<and> isPascalCase n
                     \<and> isLikelyComponent n (content localEntry)
                  then Some (path localEntry) else None)"
    by auto
  from m b have "m = [(js ''Card'', js ''/s/index.ts'')]" by simp
  then have "map_of m (js ''Card'') = Some (js ''/s/index.ts'')"
    by simp
  moreover have "map_of m (js ''Config'') = None"
    using all[of "js ''Config''"] Config_is_excluded by simp
  ultimately show ?thesis
    using localParse_entry a b m by blast
qed

section \<open>The Export Graph Resolver: wildcard re-exports\<close>


lemma indexVisitor_stars:
  "snd (indexVisitor ex cwd ip fs nd (m, stars)) =
     stars @ map (\<lambda>src. extractComponentsFromReExportWithPaths ex cwd src ip fs)
               (wildcardSources [nd])"
proof (cases nd)
  case (ExportNamedDeclaration kind specifiers source)
  then show ?thesis by (cases source) auto
next
  case (ExportDefaultDeclaration d)
  show ?thesis
  proof (cases d)
    case (DeclFunction idopt)
    with ExportDefaultDeclaration show ?thesis by (cases idopt) auto
  qed (use ExportDefaultDeclaration in auto)
qed auto

lemma wildcardSources_Cons: "wildcardSources (nd # ast) = wildcardSources [nd] @ wildcardSources ast"
  by (cases nd) auto

lemma fold_indexVisitor_stars:
  "snd (fold (indexVisitor ex cwd ip fs) ast (m, stars)) =
     stars @ map (\<lambda>src. extractComponentsFromReExportWithPaths ex cwd src ip fs)
               (wildcardSources ast)"
proof (induction ast arbitrary: m stars)
  case Nil
  then show ?case by simp
next
  case (Cons nd ast)
  obtain m1 s1 where step: "indexVisitor ex cwd ip fs nd (m, stars) = (m1, s1)"
    by (cases "indexVisitor ex cwd ip fs nd (m, stars)")
  with indexVisitor_stars[of ex cwd ip fs nd m stars]
  have s1: "s1 = stars @ map (\<lambda>src. extractComponentsFromReExportWithPaths ex cwd src ip fs)
                        (wildcardSources [nd])" by simp
  have "snd (fold (indexVisitor ex cwd ip fs) (nd # ast) (m, stars))
          = snd (fold (indexVisitor ex cwd ip fs) ast (m1, s1))"
    using step by simp
  also have "\<dots> = s1 @ map (\<lambda>src. extractComponentsFromReExportWithPaths ex cwd src ip fs)
                        (wildcardSources ast)"
    by (rule Cons.IH)
  finally show ?case
    using s1 wildcardSources_Cons[of nd ast] by simp
qed

lemma awaitAll_Inr: "awaitAll rs = Inr ms \<Longrightarrow> rs = map Inr ms"
proof (induction rs arbitrary: ms)
  case Nil
  then show ?case by simp
next
  case (Cons r rs)
  then show ?case
    by (cases r) (auto split: sum.splits)
qed








lemma indexVisitor_map:
  "fst (indexVisitor ex cwd ip fs nd (m, stars)) = fst (indexVisitor ex' cwd ip fs nd (m, stars'))"
proof (cases nd)
  case (ExportNamedDeclaration kind specifiers source)
  then show ?thesis by (cases source) auto
next
  case (ExportDefaultDeclaration d)
  show ?thesis
  proof (cases d)
    case (DeclFunction idopt)
    with ExportDefaultDeclaration show ?thesis by (cases idopt) auto
  qed (use ExportDefaultDeclaration in auto)
qed auto

lemma fold_indexVisitor_map:
  "fst (fold (indexVisitor ex cwd ip fs) ast (m, stars))
     = fst (fold (indexVisitor ex' cwd ip fs) ast (m, stars'))"
proof (induction ast arbitrary: m stars stars')
  case Nil
  then show ?case by simp
next
  case (Cons nd ast)
  obtain m1 s1 where a: "indexVisitor ex cwd ip fs nd (m, stars) = (m1, s1)"
    by (cases "indexVisitor ex cwd ip fs nd (m, stars)")
  obtain m2 s2 where b: "indexVisitor ex' cwd ip fs nd (m, stars') = (m2, s2)"
    by (cases "indexVisitor ex' cwd ip fs nd (m, stars')")
  from indexVisitor_map[of ex cwd ip fs nd m stars ex' stars'] a b have "m1 = m2" by simp
  with a b Cons.IH[of m1 s1 s2] show ?case by simp
qed

text \<open>The two branches of \<open>extractComponentInfoFromIndex\<close>.\<close>

lemma extract_parsed:
  assumes "parse c = Some ast"
  shows "extractComponentInfoFromIndex (Suc fuel) parse cwd fs c ip =
     (case awaitAll (map (\<lambda>src. extractComponentsFromReExportWithPaths
                                   (extractComponentInfoFromIndex fuel parse cwd fs) cwd src ip fs)
                         (wildcardSources ast)) of
        Inl e \<Rightarrow> Inl e
      | Inr maps \<Rightarrow> Inr (filterComponents c (fold mergeMap maps (traversalMap cwd fs ip ast))))"
proof -
  let ?ex = "extractComponentInfoFromIndex fuel parse cwd fs"
  obtain m1 stars where f: "fold (indexVisitor ?ex cwd ip fs) ast ([], []) = (m1, stars)"
    by (cases "fold (indexVisitor ?ex cwd ip fs) ast ([], [])")
  from fold_indexVisitor_stars[of ?ex cwd ip fs ast "[]" "[]"] f
  have stars: "stars = map (\<lambda>src. extractComponentsFromReExportWithPaths ?ex cwd src ip fs)
                         (wildcardSources ast)" by simp
  from fold_indexVisitor_map[of ?ex cwd ip fs ast "[]" "[]" "\<lambda>c p. Inr []" "[]"] f
  have m1: "m1 = traversalMap cwd fs ip ast" by (simp add: traversalMap_def)
  show ?thesis
    using assms f by (simp add: stars m1)
qed

lemma extract_rejected:
  assumes "parse c = None"
  shows "extractComponentInfoFromIndex (Suc fuel) parse cwd fs c ip =
     (case extractComponentNamesFromIndexRegex (extractComponentInfoFromIndex fuel parse cwd fs)
             cwd c ip fs of
        Inl e \<Rightarrow> Inl e
      | Inr componentNames \<Rightarrow> Inr (fallbackMap componentNames fs))"
  using assms by simp












lemma firstWithExtension_resolve:
  "firstWithExtension a fs exts =
     (case tryExtensions a fs exts of None \<Rightarrow> None | Some p \<Rightarrow> List.find (\<lambda>file. path file = p) fs)"
proof (induction exts)
  case Nil
  then show ?case by simp
next
  case (Cons ext exts)
  show ?case
  proof (cases "List.find (\<lambda>file. path file = a @ ext) fs")
    case None
    with Cons.IH show ?thesis by simp
  next
    case (Some f)
    then have "path f = a @ ext" by (auto simp: find_Some_iff)
    with Some show ?thesis by simp
  qed
qed

lemma reExport_target:
  "extractComponentsFromReExport ex cwd src ip fs =
     (case resolveFilePath cwd src ip fs of
        None \<Rightarrow> Inr []
      | Some p \<Rightarrow>
          (case List.find (\<lambda>file. path file = p) fs of
             None \<Rightarrow> Inr []
           | Some f \<Rightarrow> (case ex (content f) (path f) of Inl e \<Rightarrow> Inl e | Inr m \<Rightarrow> Inr (map fst m))))"
  by (simp add: extractComponentsFromReExport_def resolveFilePath_def Let_def
        firstWithExtension_resolve split: option.splits)








lemma wildcardTargets_source:
  assumes "f \<in> set (wildcardTargets parse cwd fs c ip)"
  shows "\<exists>src p. src \<in> set (case parse c of Some ast \<Rightarrow> wildcardSources ast
                                              | None \<Rightarrow> execAll exportStarPattern None c)
         \<and> resolveFilePath cwd src ip fs = Some p
         \<and> List.find (\<lambda>file. path file = p) fs = Some f"
  using assms
  by (auto simp: wildcardTargets_def List.map_filter_def split: option.splits)


lemma reExportedNames_Inr_all:
  "reExportedNames ex cwd ip fs srcs = Inr ns
     \<Longrightarrow> \<forall>src \<in> set srcs. \<exists>a. extractComponentsFromReExport ex cwd src ip fs = Inr a"
proof (induction srcs arbitrary: ns)
  case Nil
  then show ?case by simp
next
  case (Cons src srcs)
  then show ?case by (auto split: sum.splits)
qed


lemma returned_nests:
  "extractComponentInfoFromIndex d parse cwd fs c ip = Inr m
     \<Longrightarrow> wildcardsNestWithin d parse cwd fs c ip"
proof (induction d arbitrary: c ip m)
  case 0
  then show ?case by simp
next
  case (Suc d)
  let ?ex = "extractComponentInfoFromIndex d parse cwd fs"
  have "wildcardsNestWithin d parse cwd fs (content f) (path f)"
    if f: "f \<in> set (wildcardTargets parse cwd fs c ip)" for f
  proof -
    from wildcardTargets_source[OF f] obtain src p where
      src: "src \<in> set (case parse c of Some ast \<Rightarrow> wildcardSources ast
                                        | None \<Rightarrow> execAll exportStarPattern None c)"
      and res: "resolveFilePath cwd src ip fs = Some p"
      and found: "List.find (\<lambda>file. path file = p) fs = Some f" by blast
    have "\<exists>m'. ?ex (content f) (path f) = Inr m'"
    proof (cases "parse c")
      case None
      from Suc.prems obtain ns where
        "reExportedNames ?ex cwd ip fs (execAll exportStarPattern None c) = Inr ns"
        unfolding extract_rejected[where parse = parse and c = c, OF None]
        by (auto simp: extractComponentNamesFromIndexRegex_def Let_def split: sum.splits)
      from reExportedNames_Inr_all[OF this] src None
      obtain a where "extractComponentsFromReExport ?ex cwd src ip fs = Inr a" by auto
      with res found show ?thesis
        by (auto simp: reExport_target split: sum.splits)
    next
      case (Some ast)
      from Suc.prems obtain maps where
        "awaitAll (map (\<lambda>src. extractComponentsFromReExportWithPaths ?ex cwd src ip fs)
                       (wildcardSources ast)) = Inr maps"
        unfolding extract_parsed[where parse = parse and c = c, OF Some]
        by (auto split: sum.splits)
      from awaitAll_Inr[OF this]
      have eq: "map (\<lambda>src. extractComponentsFromReExportWithPaths ?ex cwd src ip fs)
                    (wildcardSources ast) = map Inr maps" .
      from src Some have "extractComponentsFromReExportWithPaths ?ex cwd src ip fs
          \<in> set (map (\<lambda>src. extractComponentsFromReExportWithPaths ?ex cwd src ip fs)
                      (wildcardSources ast))" by simp
      then obtain sm where "extractComponentsFromReExportWithPaths ?ex cwd src ip fs = Inr sm"
        unfolding eq by auto
      with res found show ?thesis
        by (simp add: extractComponentsFromReExportWithPaths_def)
    qed
    then obtain m' where "?ex (content f) (path f) = Inr m'" ..
    from Suc.IH[OF this] show ?thesis .
  qed
  then show ?case by (simp add: list_all_iff)
qed


































text \<open>
  Two modules that re-export everything of each other: the recursion does not end, and no
  fuel gives a map. The bound on the nesting in the statements below leaves out such files
  only.
\<close>

lemma ring_never_returns:
  "extractComponentInfoFromIndex fuel ringParse (js ''/w'') [ringA, ringB] (content ringA) (path ringA)
     = Inl StackExhausted
   \<and> extractComponentInfoFromIndex fuel ringParse (js ''/w'') [ringA, ringB] (content ringB) (path ringB)
     = Inl StackExhausted"
proof (induction fuel)
  case 0
  then show ?case by simp
next
  case (Suc fuel)
  have pa: "ringParse (content ringA) = Some [ExportAllDeclaration (js ''./b'')]"
    and pb: "ringParse (content ringB) = Some [ExportAllDeclaration (js ''./a'')]"
    by (simp_all add: ringParse_def ringA_def ringB_def fileOf_def js_def)
  have ra: "resolveFilePath (js ''/w'') (js ''./b'') (path ringA) [ringA, ringB] = Some (js ''/r/b.ts'')"
    and rb: "resolveFilePath (js ''/w'') (js ''./a'') (path ringB) [ringA, ringB] = Some (js ''/r/a.ts'')"
    by (simp_all add: ringA_def ringB_def fileOf_def path_eval js_def)
  have fa: "List.find (\<lambda>file. path file = js ''/r/a.ts'') [ringA, ringB] = Some ringA"
    and fb: "List.find (\<lambda>file. path file = js ''/r/b.ts'') [ringA, ringB] = Some ringB"
    by (simp_all add: ringA_def ringB_def fileOf_def js_def)
  from Suc.IH show ?case
    unfolding extract_parsed[where parse = ringParse and c = "content ringA", OF pa]
      extract_parsed[where parse = ringParse and c = "content ringB", OF pb]
    by (simp add: extractComponentsFromReExportWithPaths_def ra rb fa fb
          del: extractComponentInfoFromIndex.simps List.find.simps)
qed









section \<open>The Implementation Tracer\<close>

lemma traceSpecifiers_other:
  "\<not> list_ex (exportsName n) specs \<Longrightarrow> traceSpecifiers cwd fs n p src specs sc = sc"
  by (induction cwd fs n p src specs sc rule: traceSpecifiers.induct) (auto simp: Let_def)

lemma traceVisitor_untouched:
  "\<not> touches n nd \<Longrightarrow> traceVisitor cwd fs n p nd sc = sc"
proof (cases nd)
  case (ExportNamedDeclaration kind specs source)
  then show "\<not> touches n nd \<Longrightarrow> ?thesis"
    by (cases source) (auto simp: touches_def traceSpecifiers_other)
next
  case (ExportDefaultDeclaration d)
  then show "\<not> touches n nd \<Longrightarrow> ?thesis"
    by (cases d) (auto simp: touches_def)
qed (auto simp: touches_def)

lemma fold_traceVisitor_filter:
  "fold (traceVisitor cwd fs n p) ast sc = fold (traceVisitor cwd fs n p) (filter (touches n) ast) sc"
  by (induction ast arbitrary: sc) (auto simp: traceVisitor_untouched)

lemma traceSpecifiers_filter:
  "traceSpecifiers cwd fs n p src specs sc
     = traceSpecifiers cwd fs n p src (filter (exportsName n) specs) sc"
proof (induction cwd fs n p src specs sc rule: traceSpecifiers.induct)
  case (2 cwd allFiles currentComponentName currentFilePath src exported local kind specifiers sc)
  then show ?case
    by (cases "nameOf exported = currentComponentName") (simp_all add: Let_def)
qed auto

lemma traceSpecifiers_single:
  assumes "exportsName n spec" and "localNameOf spec = l" and "l \<noteq> js ''default''"
  shows "traceSpecifiers cwd fs n p src [spec] sc =
     (case resolveFilePath cwd src p fs of
        None \<Rightarrow> sc
      | Some targetPath \<Rightarrow> sc\<lparr>nextTraceTarget := Some (l, targetPath)\<rparr>)"
proof (cases spec)
  case (ExportSpecifier exported local kind)
  with assms show ?thesis
    by (cases local) (auto simp: Let_def split: option.splits)
qed (use assms in auto)

lemma reExportsOnlyD:
  assumes "reExportsOnly ast n l src"
  shows "\<exists>kind specs spec.
           filter (touches n) ast = [ExportNamedDeclaration kind specs (Some src)]
         \<and> filter (exportsName n) specs = [spec] \<and> localNameOf spec = l"
proof (cases "filter (touches n) ast")
  case Nil
  with assms show ?thesis by (simp add: reExportsOnly_def)
next
  case outer: (Cons x xs)
  show ?thesis
  proof (cases xs)
    case (Cons y ys)
    with outer assms show ?thesis
      by (simp add: reExportsOnly_def split: node.splits option.splits)
  next
    case Nil
    show ?thesis
    proof (cases x)
      case (ExportNamedDeclaration kind specs source)
      show ?thesis
      proof (cases source)
        case None
        with ExportNamedDeclaration Nil outer assms show ?thesis
          by (simp add: reExportsOnly_def)
      next
        case (Some s)
        show ?thesis
        proof (cases "filter (exportsName n) specs")
          case inner: Nil
          with Some ExportNamedDeclaration Nil outer assms show ?thesis
            by (simp add: reExportsOnly_def)
        next
          case inner: (Cons z zs)
          with Some ExportNamedDeclaration Nil outer assms show ?thesis
            by (cases zs) (simp_all add: reExportsOnly_def)
        qed
      qed
    qed (use Nil outer assms in \<open>simp_all add: reExportsOnly_def\<close>)
  qed
qed

lemma scanFile_reExportsOnly:
  assumes "reExportsOnly ast n l src" and "l \<noteq> js ''default''"
  shows "scanFile cwd fs n p ast deps =
     \<lparr>foundImplementation = False,
      nextTraceTarget = map_option (\<lambda>targetPath. (l, targetPath)) (resolveFilePath cwd src p fs),
      defaultAsTarget = None, scanDependencies = deps\<rparr>"
proof -
  from reExportsOnlyD[OF assms(1)] obtain kind specs spec where
    f: "filter (touches n) ast = [ExportNamedDeclaration kind specs (Some src)]"
    and g: "filter (exportsName n) specs = [spec]" and h: "localNameOf spec = l"
    by blast
  from g have "spec \<in> set (filter (exportsName n) specs)" by simp
  then have e: "exportsName n spec" by simp
  show ?thesis
    unfolding scanFile_def
    apply (subst fold_traceVisitor_filter)
    apply (simp add: f)
    apply (subst traceSpecifiers_filter)
    apply (simp add: g traceSpecifiers_single[OF e h assms(2)] split: option.splits)
    done
qed

declare traceImplementation.simps [simp del]

lemma find_path: "List.find (\<lambda>f. path f = p) fs = Some x \<Longrightarrow> path x = p"
  by (auto simp: find_Some_iff)

lemma trace_visited:
  "depth \<le> 10 \<Longrightarrow> p \<in> set (visited st) \<Longrightarrow>
     traceImplementation parse cwd fs n p depth st = (None, st)"
  by (subst traceImplementation.simps) simp

lemma trace_scanned:
  assumes "depth \<le> 10" and "p \<notin> set (visited st)"
    and "List.find (\<lambda>f. path f = p) fs = Some f"
    and "parse (content f) = Some ast"
    and "scanFile cwd fs n p ast (setAdd f (dependencySet st)) = sc"
  shows "traceImplementation parse cwd fs n p depth st =
     (let st3 = \<lparr>visited = setAdd p (visited st), dependencySet = scanDependencies sc\<rparr>
      in if foundImplementation sc
         then (case defaultAsTarget sc of Some target \<Rightarrow> (Some target, st3)
               | None \<Rightarrow> (Some f, st3))
         else (case nextTraceTarget sc of
                 Some (targetName, targetPath) \<Rightarrow>
                   traceImplementation parse cwd fs targetName targetPath (depth + 1) st3
               | None \<Rightarrow> (Some f, st3)))"
  using assms
  by (cases st) (subst traceImplementation.simps, auto simp: Let_def split: option.splits)

lemma cycle_trace:
  assumes "List.find (\<lambda>f. path f = pA) allFiles = Some fA"
    and "List.find (\<lambda>f. path f = pB) allFiles = Some fB"
    and "pA \<noteq> pB"
    and "parse (content fA) = Some astA"
    and "parse (content fB) = Some astB"
    and "reExportsOnly astA x x srcB"
    and "reExportsOnly astB x x srcA"
    and "resolveFilePath cwd srcB pA allFiles = Some pB"
    and "resolveFilePath cwd srcA pB allFiles = Some pA"
    and "x \<noteq> js ''default''"
  shows "traceImplementation parse cwd allFiles x pA 0 \<lparr>visited = [], dependencySet = []\<rparr>
           = (None, \<lparr>visited = [pA, pB], dependencySet = [fA, fB]\<rparr>)
       \<and> traceComponentImplementation parse cwd x pA allFiles = None
       \<and> traceComponents parse cwd allFiles [(x, pA)] = []"
proof -
  from find_path[OF assms(1)] find_path[OF assms(2)] assms(3) have ne: "fA \<noteq> fB" by auto
  have third: "traceImplementation parse cwd allFiles x pA 2
                 \<lparr>visited = [pA, pB], dependencySet = [fA, fB]\<rparr>
               = (None, \<lparr>visited = [pA, pB], dependencySet = [fA, fB]\<rparr>)"
    by (rule trace_visited) simp_all
  have scB: "scanFile cwd allFiles x pB astB (setAdd fB (dependencySet \<lparr>visited = [pA], dependencySet = [fA]\<rparr>))
      = \<lparr>foundImplementation = False, nextTraceTarget = Some (x, pA),
         defaultAsTarget = None, scanDependencies = [fA, fB]\<rparr>"
    using ne by (simp add: scanFile_reExportsOnly[OF assms(7) assms(10)] assms(9) setAdd_def)
  have second: "traceImplementation parse cwd allFiles x pB 1
                 \<lparr>visited = [pA], dependencySet = [fA]\<rparr>
               = (None, \<lparr>visited = [pA, pB], dependencySet = [fA, fB]\<rparr>)"
    using trace_scanned[where parse = parse and depth = 1
            and st = "\<lparr>visited = [pA], dependencySet = [fA]\<rparr>",
            OF _ _ assms(2) assms(5) scB] assms(3) third
    by (simp add: setAdd_def numeral_2_eq_2)
  have scA: "scanFile cwd allFiles x pA astA (setAdd fA (dependencySet \<lparr>visited = [], dependencySet = []\<rparr>))
      = \<lparr>foundImplementation = False, nextTraceTarget = Some (x, pB),
         defaultAsTarget = None, scanDependencies = [fA]\<rparr>"
    by (simp add: scanFile_reExportsOnly[OF assms(6) assms(10)] assms(8) setAdd_def)
  have first: "traceImplementation parse cwd allFiles x pA 0 \<lparr>visited = [], dependencySet = []\<rparr>
           = (None, \<lparr>visited = [pA, pB], dependencySet = [fA, fB]\<rparr>)"
    using trace_scanned[where parse = parse and depth = 0
            and st = "\<lparr>visited = [], dependencySet = []\<rparr>",
            OF _ _ assms(1) assms(4) scA] second
    by (simp add: setAdd_def)
  then show ?thesis
    by (simp add: traceComponentImplementation_def traceComponents_def List.map_filter_def)
qed

lemma traceVisitor_keeps_default:
  assumes "\<not> reExportsName n nd"
  shows "defaultAsTarget (traceVisitor cwd fs n p nd sc) = defaultAsTarget sc
       \<and> scanDependencies (traceVisitor cwd fs n p nd sc) = scanDependencies sc
       \<and> (foundImplementation sc \<longrightarrow> foundImplementation (traceVisitor cwd fs n p nd sc))"
proof (cases nd)
  case (ExportNamedDeclaration kind specs source)
  with assms show ?thesis
    by (cases source) (auto simp: traceSpecifiers_other)
next
  case (ExportAllDeclaration src)
  then show ?thesis by (auto split: option.splits)
next
  case (ExportDefaultDeclaration d)
  then show ?thesis by (cases d) auto
qed auto

lemma fold_keeps_default:
  assumes "\<forall>nd \<in> set ast. \<not> reExportsName n nd"
  shows "defaultAsTarget (fold (traceVisitor cwd fs n p) ast sc) = defaultAsTarget sc
       \<and> scanDependencies (fold (traceVisitor cwd fs n p) ast sc) = scanDependencies sc
       \<and> (foundImplementation sc \<longrightarrow> foundImplementation (fold (traceVisitor cwd fs n p) ast sc))"
  using assms
proof (induction ast arbitrary: sc)
  case Nil
  then show ?case by simp
next
  case (Cons nd ast)
  from Cons.prems have a: "\<not> reExportsName n nd" and b: "\<forall>nd \<in> set ast. \<not> reExportsName n nd"
    by auto
  from Cons.IH[OF b, of "traceVisitor cwd fs n p nd sc"] traceVisitor_keeps_default[OF a, of cwd fs p sc]
  show ?case by simp
qed

lemma tryExtensions_found:
  "tryExtensions a fs exts = Some t \<Longrightarrow> \<exists>f. List.find (\<lambda>file. path file = t) fs = Some f"
proof (induction exts)
  case Nil
  then show ?case by simp
next
  case (Cons ext exts)
  show ?case
  proof (cases "List.find (\<lambda>file. path file = a @ ext) fs")
    case None
    with Cons show ?thesis by simp
  next
    case (Some f)
    with Cons.prems have t: "t = path f" by simp
    from Some have "path f = a @ ext" by (rule find_path)
    with Some t show ?thesis by auto
  qed
qed

lemma resolveFilePath_found:
  "resolveFilePath cwd src p fs = Some t \<Longrightarrow> \<exists>f. List.find (\<lambda>file. path file = t) fs = Some f"
  unfolding resolveFilePath_def Let_def by (rule tryExtensions_found)

text \<open>
  C5: when a file of the Source Index parses and \<open>export { default as Foo } from src\<close>
  is its one re-export of the name \<open>Foo\<close>, and \<open>src\<close> resolves to a path in the
  Source Index, the tracer started at the file returns the file at that path at once:
  only the starting file is visited, and nothing is asked of the target's content.
\<close>

theorem default_as_resolves_directly:
  assumes "List.find (\<lambda>f. path f = pA) allFiles = Some fA"
    and "parse (content fA) = Some ast"
    and "filter (reExportsName foo) ast = [ExportNamedDeclaration kind specs (Some src)]"
    and "filter (exportsName foo) specs = [ExportSpecifier e (Identifier (js ''default'')) k]"
    and "resolveFilePath cwd src pA allFiles = Some pBar"
  shows "\<exists>fBar. List.find (\<lambda>f. path f = pBar) allFiles = Some fBar
       \<and> traceImplementation parse cwd allFiles foo pA 0 \<lparr>visited = [], dependencySet = []\<rparr>
           = (Some fBar, \<lparr>visited = [pA], dependencySet = setAdd fBar [fA]\<rparr>)
       \<and> traceComponentImplementation parse cwd foo pA allFiles
           = Some \<lparr>comp_name = foo, comp_code = content fBar, comp_path = pBar,
                   comp_file = fBar, comp_dependencies = Some (setAdd fBar [fA])\<rparr>"
proof -
  from resolveFilePath_found[OF assms(5)] obtain fBar
    where fBar: "List.find (\<lambda>f. path f = pBar) allFiles = Some fBar" by blast
  from find_path[OF fBar] have pBar: "path fBar = pBar" .
  let ?stmt = "ExportNamedDeclaration kind specs (Some src)"
  let ?v = "traceVisitor cwd allFiles foo pA"
  let ?sc0 = "\<lparr>foundImplementation = False, nextTraceTarget = None, defaultAsTarget = None,
               scanDependencies = [fA]\<rparr>"
  from assms(3) obtain us vs where split: "ast = us @ ?stmt # vs"
    and us: "\<forall>u \<in> set us. \<not> reExportsName foo u"
    and vs: "filter (reExportsName foo) vs = []"
    by (auto simp: filter_eq_Cons_iff)
  from vs have vs': "\<forall>nd \<in> set vs. \<not> reExportsName foo nd"
    by (simp add: filter_empty_conv)
  let ?sc1 = "fold ?v us ?sc0"
  from fold_keeps_default[OF us, of cwd allFiles pA ?sc0]
  have sc1: "defaultAsTarget ?sc1 = None" "scanDependencies ?sc1 = [fA]" by simp_all
  let ?sc2 = "?v ?stmt ?sc1"
  have "?sc2 = traceSpecifiers cwd allFiles foo pA src
                 [ExportSpecifier e (Identifier (js ''default'')) k] ?sc1"
    using traceSpecifiers_filter[of cwd allFiles foo pA src specs ?sc1] assms(4) by simp
  moreover have "nameOf e = foo"
  proof -
    have "ExportSpecifier e (Identifier (js ''default'')) k \<in> set (filter (exportsName foo) specs)"
      using assms(4) by simp
    then show ?thesis by simp
  qed
  ultimately have sc2: "?sc2 = ?sc1\<lparr>scanDependencies := setAdd fBar (scanDependencies ?sc1),
                                    defaultAsTarget := Some fBar, foundImplementation := True\<rparr>"
    using assms(5) fBar by (simp add: Let_def)
  define sc3 where "sc3 = fold ?v vs ?sc2"
  from fold_keeps_default[OF vs', of cwd allFiles pA ?sc2] sc2 sc1
  have sc3: "defaultAsTarget sc3 = Some fBar" "scanDependencies sc3 = setAdd fBar [fA]"
    "foundImplementation sc3" by (simp_all add: sc3_def)
  have scan: "scanFile cwd allFiles foo pA ast
                (setAdd fA (dependencySet \<lparr>visited = [], dependencySet = []\<rparr>)) = sc3"
    by (simp add: scanFile_def split sc3_def setAdd_def)
  have "traceImplementation parse cwd allFiles foo pA 0 \<lparr>visited = [], dependencySet = []\<rparr>
           = (Some fBar, \<lparr>visited = [pA], dependencySet = setAdd fBar [fA]\<rparr>)"
    using trace_scanned[where parse = parse and depth = 0
            and st = "\<lparr>visited = [], dependencySet = []\<rparr>",
            OF _ _ assms(1) assms(2) scan] sc3
    by (simp add: setAdd_def)
  with fBar pBar show ?thesis
    by (simp add: traceComponentImplementation_def)
qed

text \<open>
  C1, amended: when \<open>A\<close> and \<open>B\<close> are files of the Source Index that parse, the
  only node of \<open>A\<close> that bears on \<open>X\<close> is a re-export of \<open>X\<close> from \<open>B\<close> and
  the only node of \<open>B\<close> that bears on \<open>X\<close> is a re-export of \<open>X\<close> from \<open>A\<close>,
  the tracer started at \<open>(X, A)\<close> ends after it has visited \<open>A\<close> and \<open>B\<close>, at
  depth 2, with the result \<open>null\<close>: \<open>traceComponentImplementation\<close> returns
  \<open>null\<close> and the component is left out.
\<close>

theorem cycle_is_omitted:
  assumes "List.find (\<lambda>f. path f = pA) allFiles = Some fA"
    and "List.find (\<lambda>f. path f = pB) allFiles = Some fB"
    and "pA \<noteq> pB"
    and "parse (content fA) = Some astA"
    and "parse (content fB) = Some astB"
    and "reExportsOnly astA x x srcB"
    and "reExportsOnly astB x x srcA"
    and "resolveFilePath cwd srcB pA allFiles = Some pB"
    and "resolveFilePath cwd srcA pB allFiles = Some pA"
    and "x \<noteq> js ''default''"
  shows "traceImplementation parse cwd allFiles x pA 0 \<lparr>visited = [], dependencySet = []\<rparr>
           = (None, \<lparr>visited = [pA, pB], dependencySet = [fA, fB]\<rparr>)
       \<and> traceComponentImplementation parse cwd x pA allFiles = None
       \<and> traceComponents parse cwd allFiles [(x, pA)] = []"
  using assms by (rule cycle_trace)

lemma cycle_facts:
  "List.find (\<lambda>f. path f = js ''/c/a.ts'') [cycleA, cycleB] = Some cycleA"
  "List.find (\<lambda>f. path f = js ''/c/b.ts'') [cycleA, cycleB] = Some cycleB"
  "js ''/c/a.ts'' \<noteq> js ''/c/b.ts''"
  "cycleParse (content cycleA) = Some [reExportOf ''Tab'' ''./b'']"
  "cycleParse (content cycleB) = Some [reExportOf ''Tab'' ''./a'']"
  "reExportsOnly [reExportOf ''Tab'' ''./b''] (js ''Tab'') (js ''Tab'') (js ''./b'')"
  "reExportsOnly [reExportOf ''Tab'' ''./a''] (js ''Tab'') (js ''Tab'') (js ''./a'')"
  "resolveFilePath (js ''/w'') (js ''./b'') (js ''/c/a.ts'') [cycleA, cycleB] = Some (js ''/c/b.ts'')"
  "resolveFilePath (js ''/w'') (js ''./a'') (js ''/c/b.ts'') [cycleA, cycleB] = Some (js ''/c/a.ts'')"
  "js ''Tab'' \<noteq> js ''default''"
  by (simp_all add: cycle_eval notion_eval path_eval js_def)

text \<open>
  C1, as stated: on a re-export cycle the tracer returns one of the visited files rather
  than omitting the component. On the two files of the example it returns \<open>null\<close>,
  and the loop over the name map leaves the component out.
\<close>

theorem cycle_counterexample:
  "reExportOf ''Tab'' ''./b'' \<in> set (the (cycleParse (content cycleA)))
   \<and> reExportOf ''Tab'' ''./a'' \<in> set (the (cycleParse (content cycleB)))
   \<and> traceComponentImplementation cycleParse (js ''/w'') (js ''Tab'') (js ''/c/a.ts'')
        [cycleA, cycleB] = None
   \<and> traceComponents cycleParse (js ''/w'') [cycleA, cycleB] [(js ''Tab'', js ''/c/a.ts'')] = []"
  using cycle_trace[where parse = cycleParse, OF cycle_facts] cycle_facts(4,5)
  by simp

theorem cycle_is_omitted_witness:
  "List.find (\<lambda>f. path f = js ''/c/a.ts'') [cycleA, cycleB] = Some cycleA
   \<and> List.find (\<lambda>f. path f = js ''/c/b.ts'') [cycleA, cycleB] = Some cycleB
   \<and> cycleParse (content cycleA) = Some [reExportOf ''Tab'' ''./b'']
   \<and> cycleParse (content cycleB) = Some [reExportOf ''Tab'' ''./a'']
   \<and> reExportsOnly [reExportOf ''Tab'' ''./b''] (js ''Tab'') (js ''Tab'') (js ''./b'')
   \<and> reExportsOnly [reExportOf ''Tab'' ''./a''] (js ''Tab'') (js ''Tab'') (js ''./a'')
   \<and> resolveFilePath (js ''/w'') (js ''./b'') (js ''/c/a.ts'') [cycleA, cycleB] = Some (js ''/c/b.ts'')
   \<and> resolveFilePath (js ''/w'') (js ''./a'') (js ''/c/b.ts'') [cycleA, cycleB] = Some (js ''/c/a.ts'')
   \<and> traceImplementation cycleParse (js ''/w'') [cycleA, cycleB] (js ''Tab'') (js ''/c/a.ts'') 0
         \<lparr>visited = [], dependencySet = []\<rparr>
         = (None, \<lparr>visited = [js ''/c/a.ts'', js ''/c/b.ts''], dependencySet = [cycleA, cycleB]\<rparr>)
   \<and> traceComponentImplementation cycleParse (js ''/w'') (js ''Tab'') (js ''/c/a.ts'')
        [cycleA, cycleB] = None"
  using cycle_is_omitted[where parse = cycleParse, OF cycle_facts] cycle_facts
  by simp

lemma foo_facts:
  "List.find (\<lambda>f. path f = js ''/p/index.ts'') [fooIndex, barFile] = Some fooIndex"
  "fooParse (content fooIndex) = Some fooIndexAst"
  "filter (reExportsName (js ''Foo'')) fooIndexAst = [ExportNamedDeclaration KindValue
     [ExportSpecifier (Identifier (js ''Foo'')) (Identifier (js ''default'')) KindValue]
     (Some (js ''./Bar''))]"
  "filter (exportsName (js ''Foo''))
     [ExportSpecifier (Identifier (js ''Foo'')) (Identifier (js ''default'')) KindValue]
   = [ExportSpecifier (Identifier (js ''Foo'')) (Identifier (js ''default'')) KindValue]"
  "resolveFilePath (js ''/w'') (js ''./Bar'') (js ''/p/index.ts'') [fooIndex, barFile]
     = Some (js ''/p/Bar.tsx'')"
  by (simp_all add: foo_eval path_eval js_def)

theorem default_as_resolves_directly_witness:
  "List.find (\<lambda>f. path f = js ''/p/index.ts'') [fooIndex, barFile] = Some fooIndex
   \<and> fooParse (content fooIndex) = Some fooIndexAst
   \<and> resolveFilePath (js ''/w'') (js ''./Bar'') (js ''/p/index.ts'') [fooIndex, barFile]
        = Some (js ''/p/Bar.tsx'')
   \<and> \<not> list_ex (declares (js ''Foo'')) barAst
   \<and> traceImplementation fooParse (js ''/w'') [fooIndex, barFile] (js ''Foo'') (js ''/p/index.ts'') 0
        \<lparr>visited = [], dependencySet = []\<rparr>
       = (Some barFile, \<lparr>visited = [js ''/p/index.ts''], dependencySet = [fooIndex, barFile]\<rparr>)
   \<and> map_option comp_path (traceComponentImplementation fooParse (js ''/w'') (js ''Foo'')
          (js ''/p/index.ts'') [fooIndex, barFile]) = Some (js ''/p/Bar.tsx'')"
proof -
  have nd: "\<not> list_ex (declares (js ''Foo'')) barAst"
    by (simp add: barAst_def js_def)
  have fb: "List.find (\<lambda>f. path f = js ''/p/Bar.tsx'') [fooIndex, barFile] = Some barFile"
    by (simp add: foo_eval js_def)
  have ne: "barFile \<noteq> fooIndex" by (simp add: foo_eval js_def)
  from default_as_resolves_directly[where parse = fooParse, OF foo_facts] fb ne
  have "traceImplementation fooParse (js ''/w'') [fooIndex, barFile] (js ''Foo'') (js ''/p/index.ts'') 0
        \<lparr>visited = [], dependencySet = []\<rparr>
       = (Some barFile, \<lparr>visited = [js ''/p/index.ts''], dependencySet = [fooIndex, barFile]\<rparr>)"
    and "map_option comp_path (traceComponentImplementation fooParse (js ''/w'') (js ''Foo'')
          (js ''/p/index.ts'') [fooIndex, barFile]) = Some (js ''/p/Bar.tsx'')"
    by (auto simp: setAdd_def)
  with foo_facts(1,2,5) nd show ?thesis by blast
qed

lemma traceVisitor_found_mono:
  "foundImplementation sc \<Longrightarrow> foundImplementation (traceVisitor cwd fs n p nd sc)"
proof (cases nd)
  case (ExportNamedDeclaration kind specs source)
  have sp: "\<And>sc. foundImplementation sc \<Longrightarrow>
              foundImplementation (traceSpecifiers cwd fs n p src specs sc)" for src
  proof (induction specs)
    case Nil
    then show ?case by simp
  next
    case (Cons spec specs)
    show ?case
    proof (cases spec)
      case (ExportSpecifier exported local kind)
      with Cons show ?thesis
        by (auto simp: Let_def split: option.splits intro!: Cons.IH)
    qed (use Cons in auto)
  qed
  assume "foundImplementation sc"
  with ExportNamedDeclaration sp show ?thesis
    by (cases source) auto
next
  case (ExportDefaultDeclaration d)
  assume "foundImplementation sc"
  with ExportDefaultDeclaration show ?thesis by (cases d) auto
qed (auto split: option.splits)

lemma traceVisitor_declares:
  "declares n nd \<Longrightarrow> foundImplementation (traceVisitor cwd fs n p nd sc)"
  by (cases nd) (auto split: defaultDeclaration.splits)

lemma fold_found_mono:
  "foundImplementation sc \<Longrightarrow> foundImplementation (fold (traceVisitor cwd fs n p) ast sc)"
  by (induction ast arbitrary: sc) (auto simp: traceVisitor_found_mono)

lemma fold_declares:
  "list_ex (declares n) ast \<Longrightarrow> foundImplementation (fold (traceVisitor cwd fs n p) ast sc)"
proof (induction ast arbitrary: sc)
  case Nil
  then show ?case by simp
next
  case (Cons nd ast)
  show ?case
  proof (cases "declares n nd")
    case True
    from traceVisitor_declares[OF True] show ?thesis
      by (simp add: fold_found_mono)
  next
    case False
    with Cons show ?thesis by simp
  qed
qed

text \<open>
  On a chain in which the re-export is the only node of \<open>A\<close> and of \<open>B\<close> that
  bears on the name, the tracer does reach \<open>C\<close>, and has visited the three files.
\<close>

lemma clean_chain_resolves:
  assumes "List.find (\<lambda>f. path f = pA) allFiles = Some fA"
    and "List.find (\<lambda>f. path f = pB) allFiles = Some fB"
    and "List.find (\<lambda>f. path f = pC) allFiles = Some fC"
    and "distinct [pA, pB, pC]"
    and "parse (content fA) = Some astA"
    and "parse (content fB) = Some astB"
    and "parse (content fC) = Some astC"
    and "reExportsOnly astA x x srcB"
    and "reExportsOnly astB x x srcC"
    and "resolveFilePath cwd srcB pA allFiles = Some pB"
    and "resolveFilePath cwd srcC pB allFiles = Some pC"
    and "list_ex (declares x) astC"
    and "\<forall>nd \<in> set astC. \<not> reExportsName x nd"
    and "x \<noteq> js ''default''"
  shows "traceImplementation parse cwd allFiles x pA 0 \<lparr>visited = [], dependencySet = []\<rparr>
           = (Some fC, \<lparr>visited = [pA, pB, pC], dependencySet = [fA, fB, fC]\<rparr>)"
proof -
  from find_path[OF assms(1)] find_path[OF assms(2)] find_path[OF assms(3)] assms(4)
  have ne: "fA \<noteq> fB" "fA \<noteq> fC" "fB \<noteq> fC" by auto
  let ?v = "traceVisitor cwd allFiles x pC"
  define scC where "scC = scanFile cwd allFiles x pC astC
     (setAdd fC (dependencySet \<lparr>visited = [pA, pB], dependencySet = [fA, fB]\<rparr>))"
  have scC: "foundImplementation scC" "defaultAsTarget scC = None"
    "scanDependencies scC = [fA, fB, fC]"
    using fold_declares[OF assms(12)] fold_keeps_default[OF assms(13)] ne
    by (simp_all add: scC_def scanFile_def setAdd_def)
  have third: "traceImplementation parse cwd allFiles x pC 2
                 \<lparr>visited = [pA, pB], dependencySet = [fA, fB]\<rparr>
               = (Some fC, \<lparr>visited = [pA, pB, pC], dependencySet = [fA, fB, fC]\<rparr>)"
    using trace_scanned[where parse = parse and depth = 2
            and st = "\<lparr>visited = [pA, pB], dependencySet = [fA, fB]\<rparr>",
            OF _ _ assms(3) assms(7) scC_def[symmetric]] assms(4) scC
    by (auto simp: setAdd_def)
  have scB: "scanFile cwd allFiles x pB astB
      (setAdd fB (dependencySet \<lparr>visited = [pA], dependencySet = [fA]\<rparr>))
      = \<lparr>foundImplementation = False, nextTraceTarget = Some (x, pC),
         defaultAsTarget = None, scanDependencies = [fA, fB]\<rparr>"
    using ne by (simp add: scanFile_reExportsOnly[OF assms(9) assms(14)] assms(11) setAdd_def)
  have second: "traceImplementation parse cwd allFiles x pB 1
                 \<lparr>visited = [pA], dependencySet = [fA]\<rparr>
               = (Some fC, \<lparr>visited = [pA, pB, pC], dependencySet = [fA, fB, fC]\<rparr>)"
    using trace_scanned[where parse = parse and depth = 1
            and st = "\<lparr>visited = [pA], dependencySet = [fA]\<rparr>",
            OF _ _ assms(2) assms(6) scB] assms(4) third
    by (auto simp: setAdd_def numeral_2_eq_2)
  have scA: "scanFile cwd allFiles x pA astA
      (setAdd fA (dependencySet \<lparr>visited = [], dependencySet = []\<rparr>))
      = \<lparr>foundImplementation = False, nextTraceTarget = Some (x, pB),
         defaultAsTarget = None, scanDependencies = [fA]\<rparr>"
    by (simp add: scanFile_reExportsOnly[OF assms(8) assms(14)] assms(10) setAdd_def)
  show ?thesis
    using trace_scanned[where parse = parse and depth = 0
            and st = "\<lparr>visited = [], dependencySet = []\<rparr>",
            OF _ _ assms(1) assms(5) scA] second
    by (simp add: setAdd_def)
qed

text \<open>
  C6 on a chain whose first file holds \<open>export * from './d'\<close> after the re-export of
  \<open>Btn\<close>: \<open>a\<close> re-exports \<open>Btn\<close> from \<open>b\<close>, \<open>b\<close> from \<open>c\<close>, and \<open>c\<close>
  declares it, yet the tracer goes from \<open>a\<close> to \<open>d\<close> and returns \<open>d\<close>. The
  wildcard visitor overwrites the target the specifier visitor has set.
\<close>

theorem three_hop_chain_diverted:
  "reExportOf ''Btn'' ''./b'' \<in> set (the (chainParse (content chainA)))
   \<and> resolveFilePath (js ''/w'') (js ''./b'') (path chainA) chainFiles = Some (path chainB)
   \<and> reExportOf ''Btn'' ''./c'' \<in> set (the (chainParse (content chainB)))
   \<and> resolveFilePath (js ''/w'') (js ''./c'') (path chainB) chainFiles = Some (path chainC)
   \<and> list_ex (declares (js ''Btn'')) (the (chainParse (content chainC)))
   \<and> traceImplementation chainParse (js ''/w'') chainFiles (js ''Btn'') (path chainA) 0
        \<lparr>visited = [], dependencySet = []\<rparr>
       = (Some chainD, \<lparr>visited = [path chainA, path chainD], dependencySet = [chainA, chainD]\<rparr>)
   \<and> chainD \<noteq> chainC"
  by (simp add: chain_eval traceImplementation.simps scanFile_def setAdd_def Let_def path_eval
        js_def)

section \<open>The Dependency Context Builder: analyzeDependencies\<close>

lemma firstExisting_Some:
  "firstExisting r fs exts = Some d \<Longrightarrow>
     \<exists>ext \<in> set exts. d = r @ ext \<and> d \<in> path ` set fs
        \<and> (\<forall>e \<in> set (takeWhile (\<lambda>e. e \<noteq> ext) exts). r @ e \<notin> path ` set fs)"
proof (induction exts)
  case Nil
  then show ?case by simp
next
  case (Cons ext exts)
  show ?case
  proof (cases "list_ex (\<lambda>f. path f = r @ ext) fs")
    case True
    with Cons.prems have "d = r @ ext" by simp
    moreover from True have "r @ ext \<in> path ` set fs"
      by (force simp: list_ex_iff image_iff)
    ultimately show ?thesis by auto
  next
    case False
    then have no: "r @ ext \<notin> path ` set fs" by (force simp: list_ex_iff image_iff)
    from False Cons.prems have "firstExisting r fs exts = Some d" by simp
    from Cons.IH[OF this] obtain ext' where e': "ext' \<in> set exts" "d = r @ ext'"
      "d \<in> path ` set fs"
      "\<forall>e \<in> set (takeWhile (\<lambda>e. e \<noteq> ext') exts). r @ e \<notin> path ` set fs" by blast
    with no have "\<forall>e \<in> set (takeWhile (\<lambda>e. e \<noteq> ext') (ext # exts)). r @ e \<notin> path ` set fs"
      by auto
    with e' show ?thesis by auto
  qed
qed

lemma firstExisting_None:
  "\<forall>ext \<in> set exts. r @ ext \<notin> path ` set fs \<Longrightarrow> firstExisting r fs exts = None"
  by (induction exts) (force simp: list_ex_iff image_iff)+

lemma map_filter_set: "d \<in> set (List.map_filter f xs) \<Longrightarrow> \<exists>x \<in> set xs. f x = Some d"
  by (auto simp: List.map_filter_def)

lemma map_filter_empty: "\<forall>x \<in> set xs. f x = None \<Longrightarrow> List.map_filter f xs = []"
  by (induction xs) (auto simp: List.map_filter_def)

text \<open>
  C10: every dependency \<open>analyzeDependencies\<close> returns comes from an import path the
  pattern captured that starts with \<open>.\<close>, and is that path, resolved against the
  directory of the file, with the first of \<open>.ts\<close>, \<open>.tsx\<close>, \<open>.js\<close>, \<open>.jsx\<close>
  appended that makes it the path of a scanned file. When no import path of the file
  gives a scanned file with one of the four extensions, the result is empty, whether
  or not an index file of an imported directory was scanned; \<open>resolveFilePath\<close> goes on
  to the \<open>/index.*\<close> variants and finds it.
\<close>

theorem analyzeDependencies_relative_files_only:
  "(\<forall>d \<in> set (analyzeDependencies cwd file allFiles).
      \<exists>importPath ext.
         importPath \<in> set (importMatches None (content file))
       \<and> take 1 importPath = js ''.''
       \<and> ext \<in> set plainExtensions
       \<and> d = path_resolve cwd (path_dirname (path file)) importPath @ ext
       \<and> d \<in> path ` set allFiles
       \<and> (\<forall>e \<in> set (takeWhile (\<lambda>e. e \<noteq> ext) plainExtensions).
             path_resolve cwd (path_dirname (path file)) importPath @ e \<notin> path ` set allFiles))
   \<and> ((\<forall>importPath \<in> set (importMatches None (content file)). \<forall>ext \<in> set plainExtensions.
          path_resolve cwd (path_dirname (path file)) importPath @ ext \<notin> path ` set allFiles)
        \<longrightarrow> analyzeDependencies cwd file allFiles = [])"
proof (intro conjI ballI impI)
  fix d
  assume "d \<in> set (analyzeDependencies cwd file allFiles)"
  then obtain importPath where ip: "importPath \<in> set (importMatches None (content file))"
    and r: "resolveImport cwd file allFiles importPath = Some d"
    unfolding analyzeDependencies_def by (blast dest: map_filter_set)
  from r have dot: "take 1 importPath = js ''.''"
    and fe: "firstExisting (path_resolve cwd (path_dirname (path file)) importPath) allFiles
               plainExtensions = Some d"
    by (auto simp: resolveImport_def plainExtensions_def split: if_splits)
  from firstExisting_Some[OF fe] ip dot
  show "\<exists>importPath ext.
         importPath \<in> set (importMatches None (content file))
       \<and> take 1 importPath = js ''.''
       \<and> ext \<in> set plainExtensions
       \<and> d = path_resolve cwd (path_dirname (path file)) importPath @ ext
       \<and> d \<in> path ` set allFiles
       \<and> (\<forall>e \<in> set (takeWhile (\<lambda>e. e \<noteq> ext) plainExtensions).
             path_resolve cwd (path_dirname (path file)) importPath @ e \<notin> path ` set allFiles)"
    by blast
next
  assume none: "\<forall>importPath \<in> set (importMatches None (content file)). \<forall>ext \<in> set plainExtensions.
          path_resolve cwd (path_dirname (path file)) importPath @ ext \<notin> path ` set allFiles"
  have "\<forall>importPath \<in> set (importMatches None (content file)).
          resolveImport cwd file allFiles importPath = None"
  proof
    fix importPath
    assume "importPath \<in> set (importMatches None (content file))"
    with none have "\<forall>ext \<in> set plainExtensions.
          path_resolve cwd (path_dirname (path file)) importPath @ ext \<notin> path ` set allFiles"
      by blast
    from firstExisting_None[OF this]
    show "resolveImport cwd file allFiles importPath = None"
      by (simp add: resolveImport_def plainExtensions_def)
  qed
  then show "analyzeDependencies cwd file allFiles = []"
    unfolding analyzeDependencies_def by (rule map_filter_empty)
qed

lemma importer_matches:
  "importMatches None (content importer) = [js ''./dir'', js ''react'', js ''./b'']"
  by (simp add: import_eval rx_eval)

lemma dirImporter_matches: "importMatches None (content dirImporter) = [js ''./dir'']"
  by (simp add: dirImporter_def import_eval rx_eval)

lemma importer_result: "analyzeDependencies (js ''/w'') importer importerFiles = [js ''/p/b.tsx'']"
  unfolding analyzeDependencies_def importer_matches
  by (simp add: List.map_filter_def resolveImport_def import_eval path_eval js_def)

lemma dir_resolves:
  "resolveFilePath (js ''/w'') (js ''./dir'') (path dirImporter) importerFiles
     = Some (js ''/p/dir/index.ts'')"
  by (simp add: dirImporter_def import_eval path_eval js_def)

lemma dir_unmatched:
  "\<forall>importPath \<in> set (importMatches None (content dirImporter)). \<forall>ext \<in> set plainExtensions.
          path_resolve (js ''/w'') (path_dirname (path dirImporter)) importPath @ ext
            \<notin> path ` set importerFiles"
  unfolding dirImporter_matches
  by (simp add: plainExtensions_def dirImporter_def import_eval path_eval js_def)

theorem analyzeDependencies_relative_files_only_witness:
  "importMatches None (content importer) = [js ''./dir'', js ''react'', js ''./b'']
   \<and> analyzeDependencies (js ''/w'') importer importerFiles = [js ''/p/b.tsx'']
   \<and> (\<exists>importPath ext.
         importPath \<in> set (importMatches None (content importer))
       \<and> take 1 importPath = js ''.''
       \<and> ext \<in> set plainExtensions
       \<and> js ''/p/b.tsx'' = path_resolve (js ''/w'') (path_dirname (path importer)) importPath @ ext)
   \<and> importMatches None (content dirImporter) = [js ''./dir'']
   \<and> resolveFilePath (js ''/w'') (js ''./dir'') (path dirImporter) importerFiles
        = Some (js ''/p/dir/index.ts'')
   \<and> analyzeDependencies (js ''/w'') dirImporter importerFiles = []"
proof -
  note thm1 = analyzeDependencies_relative_files_only[of "js ''/w''" importer importerFiles,
                THEN conjunct1, rule_format]
  note thm2 = analyzeDependencies_relative_files_only[of "js ''/w''" dirImporter importerFiles,
                THEN conjunct2, rule_format]
  have "js ''/p/b.tsx'' \<in> set (analyzeDependencies (js ''/w'') importer importerFiles)"
    unfolding importer_result by simp
  from thm1[OF this]
  have a: "\<exists>importPath ext.
         importPath \<in> set (importMatches None (content importer))
       \<and> take 1 importPath = js ''.''
       \<and> ext \<in> set plainExtensions
       \<and> js ''/p/b.tsx'' = path_resolve (js ''/w'') (path_dirname (path importer)) importPath @ ext"
    by blast
  have b: "analyzeDependencies (js ''/w'') dirImporter importerFiles = []"
    using dir_unmatched by (intro thm2) blast
  from importer_matches importer_result a dirImporter_matches dir_resolves b
  show ?thesis by (intro conjI)
qed

section \<open>The dependency context\<close>

lemma truncateCode_length: "length (truncateCode code) \<le> 3000 + length truncationMarker"
  by (simp add: truncateCode_def)

lemma truncationMarker_length: "length truncationMarker = 17"
  by (simp add: truncationMarker_def js_def)

lemma find_component:
  "List.find (\<lambda>c. comp_path c = depPath) all = Some depComponent \<Longrightarrow>
     depComponent \<in> set all \<and> comp_path depComponent = depPath"
  by (auto simp: find_Some_iff)

lemma recordDependency_snippets:
  assumes "\<forall>s \<in> set (accRelatedFiles st). isSnippetOf all s"
    and "List.find (\<lambda>c. comp_path c = depPath) all = Some depComponent"
  shows "\<forall>s \<in> set (accRelatedFiles (recordDependency depComponent depPath d st)).
           isSnippetOf all s"
  using assms find_component[OF assms(2)]
  by (auto simp: recordDependency_def Let_def isSnippetOf_def)

lemma walk_snippets:
  "(\<forall>s \<in> set (accRelatedFiles st). isSnippetOf all s) \<Longrightarrow>
     \<forall>s \<in> set (accRelatedFiles (collectDependencies cwd all maxDepth cc d st)). isSnippetOf all s"
  "(\<forall>s \<in> set (accRelatedFiles st). isSnippetOf all s) \<Longrightarrow>
     \<forall>s \<in> set (accRelatedFiles (forEachDependency cwd all maxDepth deps d st)). isSnippetOf all s"
proof (induction cwd all maxDepth cc d st and cwd all maxDepth deps d st
       rule: collectDependencies_forEachDependency.induct)
  case (1 cwd allComponentFiles maxDepth currentComponent currentDepth st)
  show ?case
  proof (cases "currentDepth \<ge> maxDepth \<or> path (fst currentComponent) \<in> set (processedPaths st)")
    case True
    with "1.prems" show ?thesis by simp
  next
    case False
    with "1.IH" "1.prems" show ?thesis by simp
  qed
next
  case (2 cwd allComponentFiles maxDepth currentDepth st)
  then show ?case by simp
next
  case (3 cwd allComponentFiles maxDepth depPath rest currentDepth st)
  show ?case
  proof (cases "List.find (\<lambda>c. comp_path c = depPath) allComponentFiles")
    case None
    with "3.IH"(1) "3.prems" show ?thesis by simp
  next
    case (Some depComponent)
    show ?thesis
    proof (cases "depPath \<in> set (processedPaths st)")
      case True
      with Some "3.IH"(2) "3.prems" show ?thesis by simp
    next
      case False
      from recordDependency_snippets[OF "3.prems" Some]
      have a: "\<forall>s \<in> set (accRelatedFiles (recordDependency depComponent depPath currentDepth st)).
                 isSnippetOf allComponentFiles s" .
      from "3.IH"(3)[OF Some False a]
      have b: "\<forall>s \<in> set (accRelatedFiles
                 (collectDependencies cwd allComponentFiles maxDepth
                    (comp_file depComponent, comp_dependencies depComponent) (currentDepth + 1)
                    (recordDependency depComponent depPath currentDepth st))).
                 isSnippetOf allComponentFiles s" .
      from "3.IH"(4)[OF Some False b] Some False show ?thesis by simp
    qed
  qed
qed

text \<open>
  C2: \<open>relatedFiles\<close> of the context that \<open>buildDependencyContext\<close> returns is at most
  eight snippets, followed by nothing or by the one entry that counts the snippets left out.
  Each snippet is the header line of a component of the list followed by its code as
  \<open>truncateCode\<close> leaves it: the code itself when it has at most 3000 code units, its first
  3000 code units and the truncation marker otherwise.
\<close>

theorem dependency_context_bounded:
  "\<exists>snippets marker.
      relatedFiles (buildDependencyContext cwd component allComponentFiles maxDepth)
        = snippets @ marker
    \<and> length snippets \<le> 8
    \<and> (\<forall>s \<in> set snippets. \<exists>depComponent \<in> set allComponentFiles. \<exists>depth.
           s = snippetHeader (comp_path depComponent) depth @ truncateCode (comp_code depComponent)
         \<and> length (truncateCode (comp_code depComponent)) \<le> 3000 + length truncationMarker)
    \<and> (marker = [] \<or> (\<exists>n. marker = [omittedMarker n]))"
proof -
  let ?st0 = "\<lparr>accRelatedFiles = [], accDependencyPaths = [], accDependencyDepths = [],
                processedPaths = []\<rparr>"
  let ?st = "collectDependencies cwd allComponentFiles maxDepth
               (comp_file component, comp_dependencies component) 0 ?st0"
  let ?snippets = "take 8 (accRelatedFiles ?st)"
  let ?marker = "if length (accRelatedFiles ?st) > 8
                 then [omittedMarker (length (accRelatedFiles ?st) - 8)] else []"
  have all: "\<forall>s \<in> set (accRelatedFiles ?st). isSnippetOf allComponentFiles s"
    by (rule walk_snippets(1)) simp
  have a: "relatedFiles (buildDependencyContext cwd component allComponentFiles maxDepth)
        = ?snippets @ ?marker"
    by (simp add: buildDependencyContext_def Let_def)
  have b: "length ?snippets \<le> 8" by simp
  have c: "\<forall>s \<in> set ?snippets. \<exists>depComponent \<in> set allComponentFiles. \<exists>depth.
           s = snippetHeader (comp_path depComponent) depth @ truncateCode (comp_code depComponent)
         \<and> length (truncateCode (comp_code depComponent)) \<le> 3000 + length truncationMarker"
  proof
    fix s
    assume "s \<in> set ?snippets"
    then have "s \<in> set (accRelatedFiles ?st)" by (rule in_set_takeD)
    with all have "isSnippetOf allComponentFiles s" by blast
    then show "\<exists>depComponent \<in> set allComponentFiles. \<exists>depth.
           s = snippetHeader (comp_path depComponent) depth @ truncateCode (comp_code depComponent)
         \<and> length (truncateCode (comp_code depComponent)) \<le> 3000 + length truncationMarker"
      using truncateCode_length by (auto simp: isSnippetOf_def)
  qed
  have d: "?marker = [] \<or> (\<exists>n. ?marker = [omittedMarker n])" by auto
  from a b c d show ?thesis by blast
qed

lemma longCode_length: "length longCode = 3001"
  by (simp add: longCode_def)

lemma longCode_truncated: "truncateCode longCode = take 3000 longCode @ truncationMarker"
  by (simp add: truncateCode_def longCode_length)

lemma no_imports: "importMatches None (js ''1;'') = []"
  by (simp add: import_eval rx_eval)

lemma walk_path_inj: "(path (walkFile i) = path (walkFile j)) = (i = j)"
  by (simp add: walkFile_def)

lemma walk_find:
  assumes "i < 10"
  shows "List.find (\<lambda>c. comp_path c = path (walkFile i)) walkComponents = Some (walkComponent i)"
proof -
  have p: "comp_path (walkComponent j) = path (walkFile j)" for j
    by (simp add: walkComponent_def)
  show ?thesis
    unfolding find_Some_iff walkComponents_def
    using assms by (intro exI[of _ i]) (simp add: p walk_path_inj)
qed

lemma walk_fields:
  "comp_file (walkComponent i) = walkFile i"
  "comp_code (walkComponent i) = content (walkFile i)"
  "comp_dependencies (walkComponent 0) = Some (map walkFile [1, 2, 3, 4, 5])"
  "comp_dependencies (walkComponent (Suc 0)) = Some (map walkFile [6, 7, 8, 9])"
  "i \<noteq> 0 \<Longrightarrow> i \<noteq> 1 \<Longrightarrow> comp_dependencies (walkComponent i) = Some []"
  "length (content (walkFile i)) < 8000"
  by (simp_all add: walkComponent_def walkFile_def longCode_length js_def)

lemma walk_leaf:
  "i \<noteq> 1 \<Longrightarrow> dependenciesOf cwd walkComponents (walkFile i, Some []) = []"
  by (simp add: dependenciesOf_def analyzeDependencies_def walkFile_def no_imports
        List.map_filter_def del: importMatches.simps)


lemma walk_inner:
  "dependenciesOf cwd all (f, Some (d # ds)) = map path (d # ds)"
  by (simp add: dependenciesOf_def)

lemma walk_result:
  "relatedFiles (buildDependencyContext (js ''/w'') (walkComponent 0) walkComponents 3)
     = map snippetOf [(1, 1), (6, 2), (7, 2), (8, 2), (9, 2), (2, 1), (3, 1), (4, 1)]
       @ [omittedMarker 1]"
  by (simp add: buildDependencyContext_def walk_find walk_fields walk_leaf walk_inner walk_path_inj
        recordDependency_def setAdd_def Let_def snippetOf_def numeral_2_eq_2)


theorem dependency_context_bounded_witness:
  "relatedFiles (buildDependencyContext (js ''/w'') (walkComponent 0) walkComponents 3)
     = map snippetOf [(1, 1), (6, 2), (7, 2), (8, 2), (9, 2), (2, 1), (3, 1), (4, 1)]
       @ [omittedMarker 1]
   \<and> truncateCode (content (walkFile 1)) = take 3000 longCode @ truncationMarker
   \<and> length (truncateCode (content (walkFile 1))) = 3017
   \<and> (\<exists>depComponent \<in> set walkComponents. \<exists>depth.
         snippetOf (1, 1)
           = snippetHeader (comp_path depComponent) depth @ truncateCode (comp_code depComponent)
       \<and> length (truncateCode (comp_code depComponent)) \<le> 3000 + length truncationMarker)"
proof -
  let ?kept = "map snippetOf [(1, 1), (6, 2), (7, 2), (8, 2), (9, 2), (2, 1), (3, 1), (4, 1)]"
  from dependency_context_bounded[of "js ''/w''" "walkComponent 0" walkComponents 3,
         unfolded walk_result]
  obtain snippets marker where
        split: "?kept @ [omittedMarker 1] = snippets @ marker"
    and short: "length snippets \<le> 8"
    and each: "\<forall>s \<in> set snippets. \<exists>depComponent \<in> set walkComponents. \<exists>depth.
                s = snippetHeader (comp_path depComponent) depth @ truncateCode (comp_code depComponent)
              \<and> length (truncateCode (comp_code depComponent)) \<le> 3000 + length truncationMarker"
    and marker: "marker = [] \<or> (\<exists>n. marker = [omittedMarker n])"
    by (elim exE conjE) (rule that)
  from arg_cong[OF split, of length] have "length snippets + length marker = 9"
    by simp
  with short marker obtain n where m: "marker = [omittedMarker n]"
    by auto
  from split[unfolded m] have "snippets = ?kept"
    by (simp only: append1_eq_conv)
  then have "snippetOf (1, 1) \<in> set snippets"
    by simp
  with each have d: "\<exists>depComponent \<in> set walkComponents. \<exists>depth.
         snippetOf (1, 1)
           = snippetHeader (comp_path depComponent) depth @ truncateCode (comp_code depComponent)
       \<and> length (truncateCode (comp_code depComponent)) \<le> 3000 + length truncationMarker"
    by (rule bspec)
  have c: "content (walkFile 1) = longCode"
    by (simp add: walkFile_def)
  have t: "truncateCode (content (walkFile 1)) = take 3000 longCode @ truncationMarker"
    unfolding c by (rule longCode_truncated)
  have l: "length (truncateCode (content (walkFile 1))) = 3017"
    unfolding t by (simp add: longCode_length truncationMarker_length)
  from walk_result t l d show ?thesis
    by (intro conjI)
qed
section \<open>The Batch Orchestrator: batch size and ceiling\<close>

declare batchLoop.simps [simp del]

lemma promiseAll_length: "promiseAll ps = Fulfilled xs \<Longrightarrow> length xs = length ps"
proof (induction ps arbitrary: xs)
  case Nil
  then show ?case by simp
next
  case (Cons p ps)
  then show ?case
    by (cases p) (auto split: settled.splits)
qed

lemma map_filter_length: "length (List.map_filter f xs) \<le> length xs"
  by (simp add: List.map_filter_def)

lemma batchSize_pos: "0 < calculateOptimalBatchSize n"
  by (simp add: calculateOptimalBatchSize_def)

lemma batchLoop_finished:
  "\<not> i < length cs \<or> isAborted st \<Longrightarrow>
     batchLoop a sg cwd cf cs i st components log = finishRun st components log"
  by (subst batchLoop.simps) (auto simp: Let_def)

lemma batchLoop_step:
  assumes "i < length cs" and "\<not> isAborted st"
  shows "batchLoop a sg cwd cf cs i st components log =
     (let batchSize = calculateOptimalBatchSize (length cs);
          batch = take batchSize (drop i cs);
          batchNumber = i div batchSize + 1
      in if sg batchNumber then (ProcessExit 130, log)
         else (case processBatchWithDependencies a cwd batch cf False of
                 Fulfilled batchResults \<Rightarrow>
                   batchLoop a sg cwd cf cs (i + batchSize) (st\<lparr>abortController := True\<rparr>)
                     (components @ List.map_filter (\<lambda>r. r) batchResults)
                     (log @ [BatchCompleted batchNumber
                               (length (List.map_filter (\<lambda>r. r) batchResults)) (length batch)])
               | Rejected e \<Rightarrow>
                   if e = AbortError
                   then finishRun (st\<lparr>abortController := True\<rparr>) components
                          (log @ [BatchCancelled batchNumber])
                   else batchLoop a sg cwd cf cs (i + batchSize) (st\<lparr>abortController := True\<rparr>)
                          components (log @ [BatchFailed batchNumber])))"
  using assms
  by (subst batchLoop.simps) (auto simp: Let_def handleInterrupt_def split: settled.splits)

lemma batchLoop_invariant:
  assumes "length components \<le> min i (length cs)"
    and "batchLoop a sg cwd cf cs i st components log = (r, log')"
  shows "length (filter isTooManyNotice log') = length (filter isTooManyNotice log)
         \<and> (case r of Returned out \<Rightarrow> length out \<le> length cs | ProcessExit c \<Rightarrow> c = 130)"
  using assms
proof (induction "length cs - i" arbitrary: i st components log rule: less_induct)
  case less
  let ?b = "calculateOptimalBatchSize (length cs)"
  show ?case
  proof (cases "\<not> i < length cs \<or> isAborted st")
    case True
    with less.prems show ?thesis
      by (auto simp: batchLoop_finished finishRun_def)
  next
    case False
    then have lt: "i < length cs" and na: "\<not> isAborted st" by auto
    let ?st1 = "st\<lparr>abortController := True\<rparr>"
    let ?batch = "take ?b (drop i cs)"
    let ?bn = "i div ?b + 1"
    from lt batchSize_pos[of "length cs"]
    have dec: "length cs - (i + ?b) < length cs - i" by simp
    show ?thesis
    proof (cases "sg ?bn")
      case True
      with lt na less.prems show ?thesis
        by (auto simp: batchLoop_step Let_def)
    next
      case nosig: False
      show ?thesis
      proof (cases "processBatchWithDependencies a cwd ?batch cf False")
        case (Fulfilled batchResults)
        let ?valid = "List.map_filter (\<lambda>r. r) batchResults"
        have lenb: "length batchResults = length ?batch"
          using Fulfilled promiseAll_length
          by (fastforce simp: processBatchWithDependencies_def)
        have "length ?valid \<le> length ?batch"
          using map_filter_length[of "\<lambda>r. r" batchResults] lenb by simp
        with less.prems(1) lt
        have inv: "length (components @ ?valid) \<le> min (i + ?b) (length cs)"
          by auto
        have run: "batchLoop a sg cwd cf cs (i + ?b) ?st1 (components @ ?valid)
                     (log @ [BatchCompleted ?bn (length ?valid) (length ?batch)]) = (r, log')"
          using less.prems(2) lt na nosig Fulfilled
          by (simp add: batchLoop_step Let_def)
        from less.hyps[OF dec inv run] show ?thesis by simp
      next
        case (Rejected e)
        show ?thesis
        proof (cases "e = AbortError")
          case True
          with less.prems lt na nosig Rejected show ?thesis
            by (auto simp: batchLoop_step finishRun_def Let_def)
        next
          case False
          from less.prems(1) lt
          have inv: "length components \<le> min (i + ?b) (length cs)" by auto
          have run: "batchLoop a sg cwd cf cs (i + ?b) ?st1 components
                       (log @ [BatchFailed ?bn]) = (r, log')"
            using less.prems(2) lt na nosig Rejected False
            by (simp add: batchLoop_step Let_def)
          from less.hyps[OF dec inv run] show ?thesis by simp
        qed
      qed
    qed
  qed
qed

lemma batchLoop_log_grows:
  assumes "batchLoop a sg cwd cf cs i st components log = (r, log')"
  shows "set log \<subseteq> set log'"
  using assms
proof (induction "length cs - i" arbitrary: i st components log rule: less_induct)
  case less
  let ?b = "calculateOptimalBatchSize (length cs)"
  show ?case
  proof (cases "\<not> i < length cs \<or> isAborted st")
    case True
    with less.prems show ?thesis
      by (auto simp: batchLoop_finished finishRun_def)
  next
    case False
    then have lt: "i < length cs" and na: "\<not> isAborted st" by auto
    from lt batchSize_pos[of "length cs"]
    have dec: "length cs - (i + ?b) < length cs - i" by simp
    from less.prems lt na less.hyps[OF dec] show ?thesis
      by (fastforce simp: batchLoop_step Let_def finishRun_def split: if_splits settled.splits)
  qed
qed


text \<open>What a batch settles to when no signal has arrived.\<close>

lemma promiseAll_Fulfilled_map: "promiseAll (map (\<lambda>c. Fulfilled (g c)) xs) = Fulfilled (map g xs)"
  by (induction xs) simp_all

lemma promiseAll_Fulfilled: "promiseAll ps = Fulfilled xs \<Longrightarrow> ps = map Fulfilled xs"
proof (induction ps arbitrary: xs)
  case Nil
  then show ?case by simp
next
  case (Cons p ps)
  then show ?case
    by (cases p) (auto split: settled.splits)
qed

lemma promiseAll_Rejected: "promiseAll ps = Rejected e \<Longrightarrow> Rejected e \<in> set ps"
proof (induction ps)
  case Nil
  then show ?case by simp
next
  case (Cons p ps)
  then show ?case
    by (cases p) (auto split: settled.splits)
qed

lemma analyzeOne_unaborted:
  "analyzeOne a cwd cf False c =
     (if throwsAbort a cwd cf c then Rejected AbortError else Fulfilled (analysisOf a cwd cf c))"
  by (auto simp: analyzeOne_def throwsAbort_def analysisOf_def Let_def split: analysis.splits)

lemma batch_clean:
  assumes "\<forall>c \<in> set batch. \<not> throwsAbort a cwd cf c"
  shows "processBatchWithDependencies a cwd batch cf False = Fulfilled (map (analysisOf a cwd cf) batch)"
proof -
  have eq: "map (analyzeOne a cwd cf False) batch
              = map (\<lambda>c. Fulfilled (analysisOf a cwd cf c)) batch"
    by (rule map_cong[OF refl]) (use assms in \<open>simp add: analyzeOne_unaborted\<close>)
  show ?thesis
    unfolding processBatchWithDependencies_def eq by (rule promiseAll_Fulfilled_map)
qed

lemma batch_Fulfilled:
  assumes "processBatchWithDependencies a cwd batch cf False = Fulfilled rs"
  shows "rs = map (analysisOf a cwd cf) batch"
proof -
  from promiseAll_Fulfilled[OF assms[unfolded processBatchWithDependencies_def]]
  have eq: "map (analyzeOne a cwd cf False) batch = map Fulfilled rs" .
  then have len: "length rs = length batch" by (metis length_map)
  show ?thesis
  proof (rule nth_equalityI)
    show "length rs = length (map (analysisOf a cwd cf) batch)" using len by simp
  next
    fix i
    assume i: "i < length rs"
    from eq have "map (analyzeOne a cwd cf False) batch ! i = map Fulfilled rs ! i" by simp
    with i len have "analyzeOne a cwd cf False (batch ! i) = Fulfilled (rs ! i)" by simp
    then have "rs ! i = analysisOf a cwd cf (batch ! i)"
      by (simp add: analyzeOne_unaborted split: if_splits)
    with i len show "rs ! i = map (analysisOf a cwd cf) batch ! i" by simp
  qed
qed

lemma batch_Rejected:
  assumes "processBatchWithDependencies a cwd batch cf False = Rejected e"
  shows "e = AbortError"
proof -
  from promiseAll_Rejected[OF assms[unfolded processBatchWithDependencies_def]]
  obtain c where "analyzeOne a cwd cf False c = Rejected e" by auto
  then show ?thesis by (simp add: analyzeOne_unaborted split: if_splits)
qed

lemma map_filter_results: "List.map_filter (\<lambda>r. r) (map f xs) = List.map_filter f xs"
  by (simp add: List.map_filter_def filter_map comp_def)

lemma map_filter_app: "List.map_filter f (xs @ ys) = List.map_filter f xs @ List.map_filter f ys"
  by (simp add: List.map_filter_def)

text \<open>
  The list a run returns is what \<open>analysisOf\<close> keeps of a prefix of the candidates it
  was to analyze.
\<close>

lemma batchLoop_prefix:
  assumes "components = List.map_filter (analysisOf a cwd cf) (take i cs)"
    and "batchLoop a sg cwd cf cs i st components log = (Returned out, log')"
  shows "\<exists>k. out = List.map_filter (analysisOf a cwd cf) (take k cs)"
  using assms
proof (induction "length cs - i" arbitrary: i st components log rule: less_induct)
  case less
  let ?b = "calculateOptimalBatchSize (length cs)"
  let ?f = "analysisOf a cwd cf"
  show ?case
  proof (cases "\<not> i < length cs \<or> isAborted st")
    case True
    with less.prems show ?thesis
      by (auto simp: batchLoop_finished finishRun_def)
  next
    case False
    then have lt: "i < length cs" and na: "\<not> isAborted st" by auto
    let ?st1 = "st\<lparr>abortController := True\<rparr>"
    let ?batch = "take ?b (drop i cs)"
    let ?bn = "i div ?b + 1"
    from lt batchSize_pos[of "length cs"]
    have dec: "length cs - (i + ?b) < length cs - i" by simp
    show ?thesis
    proof (cases "sg ?bn")
      case True
      with lt na less.prems show ?thesis
        by (auto simp: batchLoop_step Let_def)
    next
      case nosig: False
      show ?thesis
      proof (cases "processBatchWithDependencies a cwd ?batch cf False")
        case (Fulfilled batchResults)
        from batch_Fulfilled[OF Fulfilled] have "batchResults = map ?f ?batch" .
        then have valid: "List.map_filter (\<lambda>r. r) batchResults = List.map_filter ?f ?batch"
          by (simp add: map_filter_results)
        have inv: "components @ List.map_filter ?f ?batch = List.map_filter ?f (take (i + ?b) cs)"
          using less.prems(1) by (simp add: take_add map_filter_app)
        have run: "batchLoop a sg cwd cf cs (i + ?b) ?st1 (components @ List.map_filter ?f ?batch)
                     (log @ [BatchCompleted ?bn (length (List.map_filter ?f ?batch)) (length ?batch)])
                   = (Returned out, log')"
          using less.prems(2) lt na nosig Fulfilled valid
          by (simp add: batchLoop_step Let_def)
        from less.hyps[OF dec inv run] show ?thesis .
      next
        case (Rejected e)
        from batch_Rejected[OF Rejected] have "e = AbortError" .
        with less.prems lt na nosig Rejected show ?thesis
          by (auto simp: batchLoop_step finishRun_def Let_def)
      qed
    qed
  qed
qed

text \<open>
  The number of batches, and a run in which no signal arrives and the analyzer throws no
  \<open>AbortError\<close>: every batch is completed, in order.
\<close>

lemma batches_left:
  assumes "0 < b"
  shows "(j < (n + b - 1) div b) = (j * b < (n::nat))"
proof -
  have "(j < (n + b - 1) div b) = (\<not> (n + b - 1) div b < Suc j)" by auto
  also have "\<dots> = (\<not> n + b - 1 < Suc j * b)"
    using assms by (simp add: div_less_iff_less_mult)
  also have "\<dots> = (j * b < n)"
    using assms by (cases n) auto
  finally show ?thesis .
qed

lemma batchLoop_clean:
  assumes "\<forall>b. \<not> sg b"
    and "\<forall>c \<in> set cs. \<not> throwsAbort a cwd cf c"
    and "\<not> isAborted st"
    and "i = j * calculateOptimalBatchSize (length cs)"
  shows "batchLoop a sg cwd cf cs i st components log =
     (Returned (components @ List.map_filter (analysisOf a cwd cf) (drop i cs)),
      log @ map (\<lambda>j. BatchCompleted (j + 1)
                        (length (List.map_filter (analysisOf a cwd cf) (batchAt cs j)))
                        (length (batchAt cs j)))
                [j..<(length cs + calculateOptimalBatchSize (length cs) - 1)
                       div calculateOptimalBatchSize (length cs)]
          @ [AnalysisSucceeded
               (length (components @ List.map_filter (analysisOf a cwd cf) (drop i cs)))])"
  using assms(3,4)
proof (induction "length cs - i" arbitrary: i j st components log rule: less_induct)
  case less
  let ?b = "calculateOptimalBatchSize (length cs)"
  let ?f = "analysisOf a cwd cf"
  let ?tb = "(length cs + ?b - 1) div ?b"
  let ?line = "\<lambda>j. BatchCompleted (j + 1) (length (List.map_filter ?f (batchAt cs j)))
                       (length (batchAt cs j))"
  have bpos: "0 < ?b" by (rule batchSize_pos)
  show ?case
  proof (cases "i < length cs")
    case False
    then have "\<not> j < ?tb"
      using less.prems(2) batches_left[OF bpos, of j "length cs"] by simp
    with False less.prems show ?thesis
      by (simp add: batchLoop_finished finishRun_def)
  next
    case lt: True
    let ?st1 = "st\<lparr>abortController := True\<rparr>"
    let ?batch = "take ?b (drop i cs)"
    have jlt: "j < ?tb"
      using lt less.prems(2) batches_left[OF bpos, of j "length cs"] by simp
    have bn: "i div ?b + 1 = j + 1"
      using less.prems(2) bpos by simp
    have batch: "?batch = batchAt cs j"
      using less.prems(2) by (simp add: batchAt_def)
    have "\<forall>c \<in> set ?batch. \<not> throwsAbort a cwd cf c"
      using assms(2) by (meson in_set_dropD in_set_takeD)
    from batch_clean[OF this]
    have settled: "processBatchWithDependencies a cwd ?batch cf False = Fulfilled (map ?f ?batch)" .
    from lt bpos have dec: "length cs - (i + ?b) < length cs - i" by simp
    have na1: "\<not> isAborted ?st1" using less.prems(1) by simp
    have i1: "i + ?b = Suc j * ?b" using less.prems(2) by simp
    have step: "batchLoop a sg cwd cf cs i st components log =
        batchLoop a sg cwd cf cs (i + ?b) ?st1 (components @ List.map_filter ?f ?batch)
          (log @ [?line j])"
      using lt less.prems(1) assms(1) settled bn batch
      by (simp add: batchLoop_step Let_def map_filter_results)
    have parts: "List.map_filter ?f (drop i cs)
                   = List.map_filter ?f ?batch @ List.map_filter ?f (drop (i + ?b) cs)"
    proof -
      have "List.map_filter ?f (drop i cs)
              = List.map_filter ?f (?batch @ drop ?b (drop i cs))"
        by (simp only: append_take_drop_id)
      also have "\<dots> = List.map_filter ?f ?batch @ List.map_filter ?f (drop (i + ?b) cs)"
        by (simp only: map_filter_app drop_drop add.commute)
      finally show ?thesis .
    qed
    have lines: "[j..<?tb] = j # [Suc j..<?tb]"
      using jlt by (simp add: upt_conv_Cons)
    show ?thesis
      unfolding step less.hyps[OF dec na1 i1] parts lines by simp
  qed
qed


text \<open>
  C7: the batch size is 2 up to 10 candidates, 3 up to 30, 4 up to 60 and 5 beyond. A run
  over a non-empty list plans its batches with that size, prints the notice about the
  ceiling once when there are more than 100 candidates and never otherwise, and ends the
  process with code 130 or returns what \<open>analysisOf\<close> keeps of a prefix of the first 100
  candidates. When no signal arrives and the analyzer throws no \<open>AbortError\<close>, that
  prefix is the first 100 candidates themselves, and the log is the notice, the plan, one
  line for every batch of the first 100 candidates in order, and the count: the
  candidates beyond the first 100 are in no batch.
\<close>

theorem batch_size_and_ceiling:
  assumes "componentFiles \<noteq> []"
    and "analyzeComponents analyzeComponent signals cwd componentFiles = (r, log)"
  shows "calculateOptimalBatchSize (length componentFiles) =
           (if length componentFiles \<le> 10 then 2 else if length componentFiles \<le> 30 then 3
            else if length componentFiles \<le> 60 then 4 else 5)
     \<and> (\<exists>totalBatches. BatchPlan (calculateOptimalBatchSize (length componentFiles)) totalBatches
            \<in> set log)
     \<and> length (filter isTooManyNotice log) = (if length componentFiles > 100 then 1 else 0)
     \<and> (case r of Returned out \<Rightarrow> length out \<le> 100 | ProcessExit c \<Rightarrow> c = 130)
     \<and> (case r of
           Returned out \<Rightarrow>
             \<exists>k \<le> 100. out = List.map_filter (analysisOf analyzeComponent cwd componentFiles)
                                 (take k componentFiles)
         | ProcessExit c \<Rightarrow> True)
     \<and> ((\<forall>b. \<not> signals b)
          \<and> (\<forall>c \<in> set (take 100 componentFiles).
                 \<not> throwsAbort analyzeComponent cwd componentFiles c)
        \<longrightarrow> r = Returned (List.map_filter (analysisOf analyzeComponent cwd componentFiles)
                            (take 100 componentFiles))
          \<and> log = (if length componentFiles > 100 then [TooManyNotice 100] else [])
                @ [BatchPlan (calculateOptimalBatchSize (length componentFiles))
                     ((min 100 (length componentFiles)
                         + calculateOptimalBatchSize (length componentFiles) - 1)
                      div calculateOptimalBatchSize (length componentFiles))]
                @ map (\<lambda>j. BatchCompleted (j + 1)
                         (length (List.map_filter (analysisOf analyzeComponent cwd componentFiles)
                                    (batchAt (take 100 componentFiles) j)))
                         (length (batchAt (take 100 componentFiles) j)))
                      [0..<(min 100 (length componentFiles)
                              + calculateOptimalBatchSize (length componentFiles) - 1)
                           div calculateOptimalBatchSize (length componentFiles)]
                @ [AnalysisSucceeded
                     (length (List.map_filter (analysisOf analyzeComponent cwd componentFiles)
                                (take 100 componentFiles)))])"
proof -
  let ?cs = "take 100 componentFiles"
  let ?b = "calculateOptimalBatchSize (length ?cs)"
  let ?f = "analysisOf analyzeComponent cwd componentFiles"
  let ?st0 = "\<lparr>abortController = False, isAborted = False\<rparr>"
  let ?log0 = "(if length componentFiles > 100 then [TooManyNotice 100] else [])
                 @ [BatchPlan ?b ((length ?cs + ?b - 1) div ?b)]"
  have run: "batchLoop analyzeComponent signals cwd componentFiles ?cs 0 ?st0 [] ?log0 = (r, log)"
    using assms by (simp add: analyzeComponents_def Let_def)
  have same: "?b = calculateOptimalBatchSize (length componentFiles)"
    by (simp add: calculateOptimalBatchSize_def min_def)
  have len: "length ?cs = min 100 (length componentFiles)"
    by (simp add: min.commute)
  from batchLoop_invariant[OF _ run]
  have cnt: "length (filter isTooManyNotice log) = length (filter isTooManyNotice ?log0)"
    and out: "(case r of Returned out \<Rightarrow> length out \<le> length ?cs | ProcessExit c \<Rightarrow> c = 130)"
    by simp_all
  from batchLoop_log_grows[OF run]
  have plan: "BatchPlan ?b ((length ?cs + ?b - 1) div ?b) \<in> set log"
    by auto
  have a: "calculateOptimalBatchSize (length componentFiles) =
           (if length componentFiles \<le> 10 then 2 else if length componentFiles \<le> 30 then 3
            else if length componentFiles \<le> 60 then 4 else 5)"
    by (simp add: calculateOptimalBatchSize_def)
  have b: "\<exists>totalBatches. BatchPlan (calculateOptimalBatchSize (length componentFiles)) totalBatches
            \<in> set log"
    using plan same by metis
  have c: "length (filter isTooManyNotice log) = (if length componentFiles > 100 then 1 else 0)"
    using cnt by simp
  have d: "(case r of Returned out \<Rightarrow> length out \<le> 100 | ProcessExit c \<Rightarrow> c = 130)"
    using out by (auto split: run.splits)
  have e: "(case r of
           Returned out \<Rightarrow> \<exists>k \<le> 100. out = List.map_filter ?f (take k componentFiles)
         | ProcessExit c \<Rightarrow> True)"
  proof (cases r)
    case (Returned out)
    have "[] = List.map_filter ?f (take 0 ?cs)" by (simp add: List.map_filter_def)
    from batchLoop_prefix[OF this run[unfolded Returned]]
    obtain k where "out = List.map_filter ?f (take k ?cs)" ..
    then have "out = List.map_filter ?f (take (min k 100) componentFiles)" by simp
    then have "\<exists>k \<le> 100. out = List.map_filter ?f (take k componentFiles)"
      by (intro exI[of _ "min k 100"]) simp
    with Returned show ?thesis by simp
  qed simp
  have f: "(\<forall>b. \<not> signals b) \<and> (\<forall>c \<in> set ?cs. \<not> throwsAbort analyzeComponent cwd componentFiles c)
        \<longrightarrow> r = Returned (List.map_filter ?f ?cs)
          \<and> log = ?log0
                @ map (\<lambda>j. BatchCompleted (j + 1) (length (List.map_filter ?f (batchAt ?cs j)))
                         (length (batchAt ?cs j)))
                      [0..<(length ?cs + ?b - 1) div ?b]
                @ [AnalysisSucceeded (length (List.map_filter ?f ?cs))]"
  proof
    assume clean: "(\<forall>b. \<not> signals b)
                 \<and> (\<forall>c \<in> set ?cs. \<not> throwsAbort analyzeComponent cwd componentFiles c)"
    have "batchLoop analyzeComponent signals cwd componentFiles ?cs 0 ?st0 [] ?log0 =
      (Returned ([] @ List.map_filter ?f (drop 0 ?cs)),
       ?log0 @ map (\<lambda>j. BatchCompleted (j + 1) (length (List.map_filter ?f (batchAt ?cs j)))
                         (length (batchAt ?cs j)))
                   [0..<(length ?cs + ?b - 1) div ?b]
          @ [AnalysisSucceeded (length ([] @ List.map_filter ?f (drop 0 ?cs)))])"
      by (rule batchLoop_clean) (use clean in simp_all)
    with run show "r = Returned (List.map_filter ?f ?cs)
          \<and> log = ?log0
                @ map (\<lambda>j. BatchCompleted (j + 1) (length (List.map_filter ?f (batchAt ?cs j)))
                         (length (batchAt ?cs j)))
                      [0..<(length ?cs + ?b - 1) div ?b]
                @ [AnalysisSucceeded (length (List.map_filter ?f ?cs))]"
      by simp
  qed
  have same': "calculateOptimalBatchSize (min 100 (length componentFiles))
                 = calculateOptimalBatchSize (length componentFiles)"
    using same by (simp add: min.commute)
  from a b c d e f[unfolded len same'] show ?thesis
    unfolding append_assoc by (intro conjI)
qed


lemma echo_analysis: "analysisOf echoAnalyzer cwd cf = (\<lambda>c. Some (infoOf cwd c))"
  by (rule ext) (simp add: analysisOf_def echoAnalyzer_def infoOf_def)

lemma echo_never_aborts: "\<not> throwsAbort echoAnalyzer cwd cf c"
  by (simp add: throwsAbort_def echoAnalyzer_def)

lemma map_filter_Some: "List.map_filter (\<lambda>c. Some (g c)) xs = map g xs"
  by (simp add: List.map_filter_def comp_def)

lemma first_hundred: "take 100 (map walkComponent [0..<200]) = map walkComponent [0..<100]"
  by (simp add: take_map)

lemma hundred_batches:
  "j < 20 \<Longrightarrow> length (batchAt (map walkComponent [0..<100]) j) = 5"
  by (simp add: batchAt_def calculateOptimalBatchSize_def)

theorem batch_size_and_ceiling_witness:
  "map walkComponent [0..<200] \<noteq> []
   \<and> calculateOptimalBatchSize (length (replicate 7 (componentOf ''Card'' localEntry))) = 2
   \<and> calculateOptimalBatchSize (length (replicate 45 (componentOf ''Card'' localEntry))) = 4
   \<and> analyzeComponents echoAnalyzer (\<lambda>b. False) (js ''/w'') (map walkComponent [0..<200])
       = (Returned (map (\<lambda>i. infoOf (js ''/w'') (walkComponent i)) [0..<100]),
          [TooManyNotice 100, BatchPlan 5 20] @ map (\<lambda>j. BatchCompleted (j + 1) 5 5) [0..<20]
            @ [AnalysisSucceeded 100])"
proof -
  let ?c = "componentOf ''Card'' localEntry"
  let ?ws = "map walkComponent [0..<200]"
  let ?run = "analyzeComponents echoAnalyzer (\<lambda>b. False) (js ''/w'') ?ws"
  have n7: "replicate 7 ?c \<noteq> []" by simp
  have n45: "replicate 45 ?c \<noteq> []" by simp
  have n200: "?ws \<noteq> []" by simp
  from batch_size_and_ceiling[OF n7 surjective_pairing, of echoAnalyzer "\<lambda>b. False" "js ''/w''"]
  have a: "calculateOptimalBatchSize (length (replicate 7 ?c)) = 2" by simp
  from batch_size_and_ceiling[OF n45 surjective_pairing, of echoAnalyzer "\<lambda>b. False" "js ''/w''"]
  have b: "calculateOptimalBatchSize (length (replicate 45 ?c)) = 4" by simp
  note all200 =
    batch_size_and_ceiling[OF n200 surjective_pairing, of echoAnalyzer "\<lambda>b. False" "js ''/w''"]
  have size: "calculateOptimalBatchSize (length ?ws) = 5"
    by (simp add: calculateOptimalBatchSize_def)
  have lines: "map (\<lambda>j. BatchCompleted (j + 1)
                  (length (map (infoOf (js ''/w'')) (batchAt (map walkComponent [0..<100]) j)))
                  (length (batchAt (map walkComponent [0..<100]) j))) [0..<20]
             = map (\<lambda>j. BatchCompleted (j + 1) 5 5) [0..<20]"
    by (rule map_cong[OF refl]) (simp add: hundred_batches)
  from all200 have "fst ?run = Returned (map (infoOf (js ''/w'')) (map walkComponent [0..<100]))
     \<and> snd ?run = [TooManyNotice 100, BatchPlan 5 20]
          @ map (\<lambda>j. BatchCompleted (j + 1)
                  (length (map (infoOf (js ''/w'')) (batchAt (map walkComponent [0..<100]) j)))
                  (length (batchAt (map walkComponent [0..<100]) j))) [0..<20]
          @ [AnalysisSucceeded 100]"
    unfolding size first_hundred echo_analysis map_filter_Some
    by (simp add: echo_never_aborts)
  then have "?run = (Returned (map (\<lambda>i. infoOf (js ''/w'') (walkComponent i)) [0..<100]),
          [TooManyNotice 100, BatchPlan 5 20] @ map (\<lambda>j. BatchCompleted (j + 1) 5 5) [0..<20]
            @ [AnalysisSucceeded 100])"
    unfolding lines by (simp add: prod_eq_iff comp_def)
  with n200 a b show ?thesis by (intro conjI)
qed
section \<open>The Batch Orchestrator: cancellation\<close>

lemma interrupted_batch_exits:
  assumes "i < length cs" and "\<not> isAborted st"
    and "sg (i div calculateOptimalBatchSize (length cs) + 1)"
  shows "batchLoop a sg cwd cf cs i st components log = (ProcessExit 130, log)"
  using assms by (simp add: batchLoop_step Let_def)

lemma leaf_context:
  assumes "comp_dependencies component = Some []"
    and "content (comp_file component) = js ''1;''"
  shows "relatedFiles (buildDependencyContext cwd component all 3) = []"
  using assms
  by (simp add: buildDependencyContext_def dependenciesOf_def analyzeDependencies_def no_imports
        List.map_filter_def Let_def del: importMatches.simps)

lemma echo_one:
  assumes "comp_dependencies component = Some []"
    and "content (comp_file component) = js ''1;''"
  shows "analyzeOne echoAnalyzer cwd all False component = Fulfilled (Some (infoOf cwd component))"
  using assms by (simp add: analyzeOne_def leaf_context echoAnalyzer_def infoOf_def)

lemma echo_leaf:
  "analyzeOne echoAnalyzer cwd all False (componentOf n (fileOf p ''1;''))
     = Fulfilled (Some (infoOf cwd (componentOf n (fileOf p ''1;''))))"
  by (rule echo_one) (simp_all add: componentOf_def fileOf_def)

lemma trio_interrupted:
  "analyzeComponents echoAnalyzer (\<lambda>b. b = 2) (js ''/w'') trio
     = (ProcessExit 130, [BatchPlan 2 2, BatchCompleted 1 2 2])"
  by (simp add: analyzeComponents_def calculateOptimalBatchSize_def Let_def batchLoop_step
        processBatchWithDependencies_def echo_leaf List.map_filter_def trio_def)

lemma trio_completed:
  "analyzeComponents echoAnalyzer (\<lambda>b. False) (js ''/w'') trio
     = (Returned (map (infoOf (js ''/w'')) trio),
        [BatchPlan 2 2, BatchCompleted 1 2 2, BatchCompleted 2 1 1, AnalysisSucceeded 3])"
  by (simp add: analyzeComponents_def calculateOptimalBatchSize_def Let_def batchLoop_step
        batchLoop_finished finishRun_def processBatchWithDependencies_def echo_leaf
        List.map_filter_def trio_def)

lemma trio_infos:
  "map (infoOf (js ''/w'')) trio
     = [(js ''A'', js ''a.ts''), (js ''B'', js ''b.ts''), (js ''C'', js ''c.ts'')]"
  by (simp add: infoOf_def trio_def componentOf_def fileOf_def path_relative_def path_eval js_def
        Let_def)

text \<open>
  C8: a run over three components in which the signal arrives while the second batch is
  in flight. \<open>handleInterrupt\<close> ends the process with code 130: the run returns no list,
  and the two results of the first batch are lost with it. Without the signal the same
  run returns the three results. The branches of \<open>analyzeComponents\<close> that would return
  the results so far read \<open>isAborted\<close>, which only the handler sets, just before it
  exits.
\<close>

theorem cancel_exits_process:
  "analyzeComponents echoAnalyzer (\<lambda>b. b = 2) (js ''/w'') trio
     = (ProcessExit 130, [BatchPlan 2 2, BatchCompleted 1 2 2])
   \<and> analyzeComponents echoAnalyzer (\<lambda>b. False) (js ''/w'') trio
     = (Returned [(js ''A'', js ''a.ts''), (js ''B'', js ''b.ts''), (js ''C'', js ''c.ts'')],
        [BatchPlan 2 2, BatchCompleted 1 2 2, BatchCompleted 2 1 1, AnalysisSucceeded 3])"
  using trio_interrupted trio_completed unfolding trio_infos by (rule conjI)
end
